theory Spec2Isabelle
  imports Complex_Main
begin

section \<open>Tensors\<close>

text \<open>
  The notebooks hand every numeric operation to the tensor library. A tensor is modelled
  by its shape and its flat, row-major storage; the floating-point numbers of the library
  are modelled by real numbers. The storage may be longer than the number of elements the
  shape addresses, as it is after an in-place resize to a smaller size.
\<close>

datatype error =
    IndexError
  | KeyError
  | ZeroDivisionError
  | TypeError
  | FileNotFoundError
  | NegativeDimension
  | InputShapeError
  | CriterionError
  | ConfigurationError
  | StateDictError "string list" "string list" "string list"

text \<open>
  Exceptions are values: \<open>Inl e\<close> is a raised error, and \<open>bind_err\<close> runs the rest of
  the code only when nothing was raised.
\<close>

definition bind_err :: "error + 'a \<Rightarrow> ('a \<Rightarrow> error + 'b) \<Rightarrow> error + 'b" where
  "bind_err m f = (case m of Inl e \<Rightarrow> Inl e | Inr v \<Rightarrow> f v)"

record tensor =
  shape :: "nat list"
  storage :: "real list"

definition numel :: "nat list \<Rightarrow> nat" where
  "numel s = prod_list s"

definition elems :: "tensor \<Rightarrow> real list" where
  "elems t = take (numel (shape t)) (storage t)"

definition tensor_wf :: "tensor \<Rightarrow> bool" where
  "tensor_wf t = (numel (shape t) \<le> length (storage t))"

text \<open>
  \<^verbatim>\<open>t.resize_(*sizes)\<close>: the shape is replaced without any check on the number of
  elements. Existing storage is kept; when the new size needs more elements the storage
  grows and the new cells are uninitialised memory, here the values \<open>garbage i\<close>.
\<close>

definition resize_inplace :: "(nat \<Rightarrow> real) \<Rightarrow> tensor \<Rightarrow> nat list \<Rightarrow> tensor" where
  "resize_inplace garbage t sz =
     \<lparr>shape = sz,
      storage = (if length (storage t) < numel sz
                 then storage t @ map garbage [length (storage t)..<numel sz]
                 else storage t)\<rparr>"

text \<open>\<^verbatim>\<open>t.size()[0]\<close>: indexing the size of a zero-dimensional tensor raises.\<close>

definition size0 :: "tensor \<Rightarrow> error + nat" where
  "size0 t = (case shape t of [] \<Rightarrow> Inl IndexError | n # _ \<Rightarrow> Inr n)"

text \<open>The rows of a tensor along its last dimension.\<close>

definition rows :: "tensor \<Rightarrow> real list list" where
  "rows t =
     (let k = last (shape t)
      in map (\<lambda>i. take k (drop (i * k) (elems t))) [0..<numel (butlast (shape t))])"

section \<open>Layers of the library\<close>

text \<open>
  A parameter holds its values and the gradient accumulated for it, which is absent
  until the first backward pass.
\<close>

record parameter =
  pdata :: tensor
  pgrad :: "real list option"

record linear =
  in_features :: nat
  out_features :: nat
  weight :: parameter
  bias :: parameter

text \<open>
  \<^verbatim>\<open>nn.Linear(in_features, out_features)\<close> allocates a weight of shape
  \<open>(out_features, in_features)\<close> and a bias of shape \<open>(out_features)\<close>, filled with
  random values: \<open>winit\<close> and \<open>binit\<close> give the value drawn for each cell. A negative
  size is refused by the allocation.
\<close>

definition nn_Linear :: "(nat \<Rightarrow> real) \<Rightarrow> (nat \<Rightarrow> real) \<Rightarrow> int \<Rightarrow> int \<Rightarrow> error + linear" where
  "nn_Linear winit binit i out =
     (if i < 0 \<or> out < 0 then Inl NegativeDimension
      else Inr \<lparr>in_features = nat i, out_features = nat out,
                weight = \<lparr>pdata = \<lparr>shape = [nat out, nat i],
                                   storage = map winit [0..<nat out * nat i]\<rparr>,
                          pgrad = None\<rparr>,
                bias = \<lparr>pdata = \<lparr>shape = [nat out], storage = map binit [0..<nat out]\<rparr>,
                        pgrad = None\<rparr>\<rparr>)"

definition dot :: "real list \<Rightarrow> real list \<Rightarrow> real" where
  "dot xs ys = sum_list (map2 (*) xs ys)"

definition affine :: "real list list \<Rightarrow> real list \<Rightarrow> real list \<Rightarrow> real list" where
  "affine W b x = map2 (\<lambda>w c. dot w x + c) W b"

text \<open>
  The forward pass of a linear layer, \<open>x W\<^sup>T + b\<close> on every row of the input. The
  library raises a size-mismatch error when the last dimension of the input is not
  \<open>in_features\<close>; a zero-dimensional input is refused as well.
\<close>

definition linear_forward :: "linear \<Rightarrow> tensor \<Rightarrow> error + tensor" where
  "linear_forward l x =
     (if shape x = [] then Inl InputShapeError
      else if last (shape x) \<noteq> in_features l then Inl InputShapeError
      else Inr \<lparr>shape = butlast (shape x) @ [out_features l],
                storage = concat (map (affine (rows (pdata (weight l)))
                                              (elems (pdata (bias l)))) (rows x))\<rparr>)"

definition relu :: "tensor \<Rightarrow> tensor" where
  "relu x = x\<lparr>storage := map (max 0) (storage x)\<rparr>"

datatype module = Linear linear | ReLU

fun module_forward :: "module \<Rightarrow> tensor \<Rightarrow> error + tensor" where
  "module_forward (Linear l) x = linear_forward l x"
| "module_forward ReLU x = Inr (relu x)"

text \<open>\<^verbatim>\<open>nn.Sequential\<close>: named modules, applied in order; the first error aborts.\<close>

type_synonym sequential = "(string \<times> module) list"

fun forward :: "sequential \<Rightarrow> tensor \<Rightarrow> error + tensor" where
  "forward [] x = Inr x"
| "forward ((name, m) # ms) x = bind_err (module_forward m x) (forward ms)"

section \<open>The network of the training notebook\<close>

text \<open>
  \<^verbatim>\<open>hidden_sizes[i]\<close> on a Python list: out of range raises IndexError; a negative
  index counts from the end, and is not used here.
\<close>

definition list_get :: "'a list \<Rightarrow> nat \<Rightarrow> error + 'a" where
  "list_get xs i = (if i < length xs then Inr (xs ! i) else Inl IndexError)"

text \<open>
  The model cell: \<open>fc1\<close>, \<open>relu1\<close>, \<open>fc2\<close>, \<open>relu2\<close>, \<open>logits\<close>. The arguments are
  evaluated left to right, so the first failure is the one raised. \<open>init name\<close> gives
  the random initial values of the parameter of that name.
\<close>

definition model :: "(string \<Rightarrow> nat \<Rightarrow> real) \<Rightarrow> int \<Rightarrow> int list \<Rightarrow> int \<Rightarrow> error + sequential" where
  "model init input_size hidden_sizes output_size =
     bind_err (list_get hidden_sizes 0) (\<lambda>h0.
     bind_err (nn_Linear (init ''fc1.weight'') (init ''fc1.bias'') input_size h0) (\<lambda>fc1.
     bind_err (list_get hidden_sizes 1) (\<lambda>h1.
     bind_err (nn_Linear (init ''fc2.weight'') (init ''fc2.bias'') h0 h1) (\<lambda>fc2.
     bind_err (nn_Linear (init ''logits.weight'') (init ''logits.bias'') h1 output_size) (\<lambda>logits.
     Inr [(''fc1'', Linear fc1), (''relu1'', ReLU), (''fc2'', Linear fc2),
          (''relu2'', ReLU), (''logits'', Linear logits)])))))"

section \<open>Gradients and the optimizer\<close>

text \<open>
  The parameters of a network under their names, as \<^verbatim>\<open>named_parameters()\<close> lists
  them: \<open>fc1.weight\<close>, \<open>fc1.bias\<close>, and so on.
\<close>

fun named_parameters :: "sequential \<Rightarrow> (string \<times> parameter) list" where
  "named_parameters [] = []"
| "named_parameters ((name, Linear l) # ms) =
     (name @ ''.weight'', weight l) # (name @ ''.bias'', bias l) # named_parameters ms"
| "named_parameters ((name, ReLU) # ms) = named_parameters ms"

text \<open>An in-place change of every parameter object of the network.\<close>

fun map_named_parameters :: "(string \<Rightarrow> parameter \<Rightarrow> parameter) \<Rightarrow> sequential \<Rightarrow> sequential" where
  "map_named_parameters f [] = []"
| "map_named_parameters f ((name, Linear l) # ms) =
     (name, Linear (l\<lparr>weight := f (name @ ''.weight'') (weight l),
                      bias := f (name @ ''.bias'') (bias l)\<rparr>))
     # map_named_parameters f ms"
| "map_named_parameters f ((name, ReLU) # ms) = (name, ReLU) # map_named_parameters f ms"

text \<open>
  \<^verbatim>\<open>optimizer.zero_grad()\<close>: every gradient that exists is overwritten with zeros; a
  parameter that has no gradient yet is left without one.
\<close>

definition zero_grad_parameter :: "parameter \<Rightarrow> parameter" where
  "zero_grad_parameter p = p\<lparr>pgrad := map_option (map (\<lambda>g. 0)) (pgrad p)\<rparr>"

definition zero_grad :: "sequential \<Rightarrow> sequential" where
  "zero_grad net = map_named_parameters (\<lambda>name. zero_grad_parameter) net"

text \<open>
  \<^verbatim>\<open>loss.backward()\<close>: automatic differentiation belongs to the library. Here
  \<open>g name i\<close> is the derivative of the loss in cell \<open>i\<close> of the parameter \<open>name\<close>; the
  backward pass adds it to the gradient the parameter holds, or stores it when the
  parameter holds none.
\<close>

definition accumulate_grad :: "(nat \<Rightarrow> real) \<Rightarrow> parameter \<Rightarrow> parameter" where
  "accumulate_grad d p =
     (let new = map d [0..<numel (shape (pdata p))]
      in p\<lparr>pgrad := (case pgrad p of None \<Rightarrow> Some new
                                  | Some old \<Rightarrow> Some (map2 (+) old new))\<rparr>)"

definition backward :: "(string \<Rightarrow> nat \<Rightarrow> real) \<Rightarrow> sequential \<Rightarrow> sequential" where
  "backward g net = map_named_parameters (\<lambda>name. accumulate_grad (g name)) net"

text \<open>
  \<^verbatim>\<open>optimizer.step()\<close> of plain stochastic gradient descent: a parameter without a
  gradient is skipped, any other moves against its gradient by the learning rate.
\<close>

definition sgd_parameter :: "real \<Rightarrow> parameter \<Rightarrow> parameter" where
  "sgd_parameter lr p =
     (case pgrad p of None \<Rightarrow> p
      | Some d \<Rightarrow>
          p\<lparr>pdata := (pdata p)\<lparr>storage :=
                map (\<lambda>i. if i < length d then storage (pdata p) ! i - lr * d ! i
                          else storage (pdata p) ! i)
                    [0..<length (storage (pdata p))]\<rparr>\<rparr>)"

definition optimizer_step :: "real \<Rightarrow> sequential \<Rightarrow> sequential" where
  "optimizer_step lr net = map_named_parameters (\<lambda>name. sgd_parameter lr) net"

section \<open>The training loop\<close>

text \<open>
  What the loop takes from the library and from the machine: the content of
  uninitialised memory, the loss criterion (which may raise), and the gradient of the
  loss that automatic differentiation computes for a network, a batch and its labels.
\<close>

record env =
  garbage :: "nat \<Rightarrow> real"
  criterion :: "tensor \<Rightarrow> nat list \<Rightarrow> error + real"
  autograd :: "sequential \<Rightarrow> tensor \<Rightarrow> nat list \<Rightarrow> string \<Rightarrow> nat \<Rightarrow> real"

text \<open>\<^verbatim>\<open>images.resize_(images.size()[0], 784)\<close>\<close>

definition flatten_batch :: "env \<Rightarrow> tensor \<Rightarrow> error + tensor" where
  "flatten_batch ev images =
     bind_err (size0 images) (\<lambda>n. Inr (resize_inplace (garbage ev) images [n, 784]))"

text \<open>
  The rest of an iteration: clear the gradients, forward pass, loss, backward pass,
  optimizer step. The result is the updated network and \<^verbatim>\<open>loss.item()\<close>.
\<close>

definition train_core :: "env \<Rightarrow> real \<Rightarrow> sequential \<Rightarrow> tensor \<Rightarrow> nat list \<Rightarrow> error + (sequential \<times> real)" where
  "train_core ev lr net images labels =
     (let net1 = zero_grad net
      in bind_err (forward net1 images) (\<lambda>output.
         bind_err (criterion ev output labels) (\<lambda>loss.
         Inr (optimizer_step lr (backward (autograd ev net1 images labels) net1), loss))))"

definition train_step :: "env \<Rightarrow> real \<Rightarrow> sequential \<Rightarrow> tensor \<times> nat list \<Rightarrow> error + (sequential \<times> real)" where
  "train_step ev lr net batch =
     bind_err (flatten_batch ev (fst batch)) (\<lambda>images. train_core ev lr net images (snd batch))"

text \<open>
  The cell that makes one learning step: the batch is resized to \<open>(64, 784)\<close> and the
  optimizer has the learning rate \<open>0.01\<close>.
\<close>

definition single_training_step :: "env \<Rightarrow> sequential \<Rightarrow> tensor \<times> nat list \<Rightarrow> error + (sequential \<times> real)" where
  "single_training_step ev net batch =
     train_core ev (1 / 100) net (resize_inplace (garbage ev) (fst batch) [64, 784]) (snd batch)"

record train_state =
  net :: sequential
  steps :: nat
  running_loss :: real
  printed :: "(nat \<times> nat \<times> real) list"

text \<open>
  The periodic report at the end of an iteration: when the step counter is a multiple
  of \<open>print_every\<close> a line is printed, recorded here as the epoch number shown, the
  number of epochs and the loss value shown, and \<open>running_loss\<close> starts again at zero.
\<close>

definition report :: "nat \<Rightarrow> nat \<Rightarrow> nat \<Rightarrow> train_state \<Rightarrow> train_state" where
  "report print_every epochs e st =
     (if steps st mod print_every = 0
      then st\<lparr>printed := printed st @ [(e + 1, epochs, running_loss st / real print_every)],
              running_loss := 0\<rparr>
      else st)"

text \<open>
  The inner loop over the batches of epoch \<open>e\<close>. The remainder by a \<open>print_every\<close> of
  zero raises.
\<close>

fun train_batches ::
  "env \<Rightarrow> real \<Rightarrow> nat \<Rightarrow> nat \<Rightarrow> nat \<Rightarrow> train_state \<Rightarrow> (tensor \<times> nat list) list \<Rightarrow> error + train_state" where
  "train_batches ev lr print_every epochs e st [] = Inr st"
| "train_batches ev lr print_every epochs e st (b # bs) =
     (let st1 = st\<lparr>steps := steps st + 1\<rparr>
      in bind_err (train_step ev lr (net st1) b) (\<lambda>r.
         let st2 = st1\<lparr>net := fst r, running_loss := running_loss st1 + snd r\<rparr>
         in if print_every = 0 then Inl ZeroDivisionError
            else train_batches ev lr print_every epochs e (report print_every epochs e st2) bs))"

text \<open>
  The outer loop, \<^verbatim>\<open>for e in range(epochs)\<close>: \<open>running_loss\<close> starts every epoch at
  zero, \<open>steps\<close> keeps counting. The loader shuffles, so \<open>trainloader e\<close> is the
  sequence of batches it yields in epoch \<open>e\<close>.
\<close>

fun train_epochs ::
  "env \<Rightarrow> real \<Rightarrow> nat \<Rightarrow> nat \<Rightarrow> (nat \<Rightarrow> (tensor \<times> nat list) list) \<Rightarrow> nat list \<Rightarrow> train_state \<Rightarrow> error + train_state" where
  "train_epochs ev lr print_every epochs trainloader [] st = Inr st"
| "train_epochs ev lr print_every epochs trainloader (e # es) st =
     bind_err (train_batches ev lr print_every epochs e (st\<lparr>running_loss := 0\<rparr>) (trainloader e))
       (train_epochs ev lr print_every epochs trainloader es)"

text \<open>
  The training cell: \<open>epochs = 3\<close>, \<open>print_every = 40\<close>, \<open>steps = 0\<close>, and the
  optimizer of the cell before it, with learning rate \<open>0.003\<close>.
\<close>

definition training_cell :: "env \<Rightarrow> sequential \<Rightarrow> (nat \<Rightarrow> (tensor \<times> nat list) list) \<Rightarrow> error + train_state" where
  "training_cell ev net0 trainloader =
     train_epochs ev (3 / 1000) 40 3 trainloader [0..<3]
       \<lparr>net = net0, steps = 0, running_loss = 0, printed = []\<rparr>"

section \<open>The configurable classifier\<close>

text \<open>
  The second notebook imports the classifier \<^verbatim>\<open>fc_model.Network\<close>; the module
  \<^verbatim>\<open>fc_model\<close> itself is not among the sources. The notebook shows what an instance
  prints as: a module list \<open>hidden_layers\<close> of linear layers, a linear layer
  \<open>output\<close> and a dropout module, with the state-dict keys
  \<open>hidden_layers.0.weight\<close>, \<open>hidden_layers.0.bias\<close>, ..., \<open>output.weight\<close>,
  \<open>output.bias\<close>. A module is created in training mode.
\<close>

record network =
  hidden_layers :: "linear list"
  "output" :: linear
  drop_p :: real
  training :: bool

text \<open>Decimal numerals, as Python prints the index of a layer.\<close>

fun string_of_nat :: "nat \<Rightarrow> string" where
  "string_of_nat n =
     (if n < 10 then [char_of (48 + n)]
      else string_of_nat (n div 10) @ [char_of (48 + n mod 10)])"

declare string_of_nat.simps [simp del]

text \<open>Reading a decimal numeral back, which shows that distinct indices have distinct names.\<close>

definition nat_of_string :: "string \<Rightarrow> nat" where
  "nat_of_string s = foldl (\<lambda>acc c. 10 * acc + (of_char c - 48)) 0 s"

definition hidden_name :: "nat \<Rightarrow> string \<Rightarrow> string" where
  "hidden_name k s = ''hidden_layers.'' @ string_of_nat k @ ''.'' @ s"

fun hidden_stack :: "(string \<Rightarrow> nat \<Rightarrow> real) \<Rightarrow> nat \<Rightarrow> int \<Rightarrow> int list \<Rightarrow> error + linear list" where
  "hidden_stack init k i [] = Inr []"
| "hidden_stack init k i (h # hs) =
     bind_err (nn_Linear (init (hidden_name k ''weight'')) (init (hidden_name k ''bias'')) i h)
       (\<lambda>l. bind_err (hidden_stack init (Suc k) h hs) (\<lambda>ls. Inr (l # ls)))"

text \<open>
  Modelled from the spec: the constructor of \<^verbatim>\<open>fc_model.Network\<close>, which is not
  among the sources. The spec: given the configuration (input size, output size, hidden
  sizes, dropout probability) it constructs a stack of affine transformations, one unit
  per requested width, each layer's input width being the previous layer's output width;
  the list of hidden sizes may be empty, which leaves a single linear layer; constructing
  with a non-positive dimension or a hidden size of zero fails with a configuration
  error.
\<close>

definition Network ::
  "(string \<Rightarrow> nat \<Rightarrow> real) \<Rightarrow> int \<Rightarrow> int \<Rightarrow> int list \<Rightarrow> real \<Rightarrow> error + network" where
  "Network init input_size output_size hidden_sizes p =
     (if input_size \<le> 0 \<or> output_size \<le> 0 \<or> (\<exists>h \<in> set hidden_sizes. h \<le> 0)
      then Inl ConfigurationError
      else bind_err (hidden_stack init 0 input_size hidden_sizes) (\<lambda>hidden.
           bind_err (nn_Linear (init ''output.weight'') (init ''output.bias'')
                       (last (input_size # hidden_sizes)) output_size) (\<lambda>out.
           Inr \<lparr>hidden_layers = hidden, output = out, drop_p = p, training = True\<rparr>)))"

text \<open>
  The dropout probability of a network constructed without one. The notebook constructs
  its networks from three arguments and they print as \<open>Dropout(p=0.5)\<close>.
\<close>

definition default_drop_p :: real where
  "default_drop_p = 1 / 2"

text \<open>
  Dropout: in training mode a cell is kept and scaled by \<open>1 / (1 - p)\<close>, or set to
  zero, as the random mask \<open>keep\<close> decides; in evaluation mode nothing changes.
\<close>

definition dropout :: "bool \<Rightarrow> real \<Rightarrow> (nat \<Rightarrow> bool) \<Rightarrow> tensor \<Rightarrow> tensor" where
  "dropout train p keep x =
     (if train
      then x\<lparr>storage := map (\<lambda>i. if keep i then storage x ! i / (1 - p) else 0)
                              [0..<length (storage x)]\<rparr>
      else x)"

fun hidden_forward ::
  "bool \<Rightarrow> real \<Rightarrow> (nat \<Rightarrow> nat \<Rightarrow> bool) \<Rightarrow> nat \<Rightarrow> linear list \<Rightarrow> tensor \<Rightarrow> error + tensor" where
  "hidden_forward train p masks k [] x = Inr x"
| "hidden_forward train p masks k (l # ls) x =
     bind_err (linear_forward l x)
       (\<lambda>y. hidden_forward train p masks (Suc k) ls (dropout train p (masks k) (relu y)))"

text \<open>
  Modelled from the spec: the forward pass of \<^verbatim>\<open>fc_model.Network\<close>, which is not
  among the sources. The spec: the affine transformations are separated by a
  rectified-linear activation and a dropout step applied only during training mode; the
  final affine transformation produces the raw scores with no activation applied.
  \<open>masks k\<close> is the random choice of the dropout step after hidden layer \<open>k\<close>.
\<close>

definition network_forward :: "(nat \<Rightarrow> nat \<Rightarrow> bool) \<Rightarrow> network \<Rightarrow> tensor \<Rightarrow> error + tensor" where
  "network_forward masks nw x =
     bind_err (hidden_forward (training nw) (drop_p nw) masks 0 (hidden_layers nw) x)
       (linear_forward (output nw))"

text \<open>\<^verbatim>\<open>model.eval()\<close> switches a module to evaluation mode.\<close>

definition eval_mode :: "network \<Rightarrow> network" where
  "eval_mode nw = nw\<lparr>training := False\<rparr>"

section \<open>State dicts\<close>

fun hidden_parameters :: "nat \<Rightarrow> linear list \<Rightarrow> (string \<times> parameter) list" where
  "hidden_parameters k [] = []"
| "hidden_parameters k (l # ls) =
     (hidden_name k ''weight'', weight l) # (hidden_name k ''bias'', bias l)
     # hidden_parameters (Suc k) ls"

definition network_parameters :: "network \<Rightarrow> (string \<times> parameter) list" where
  "network_parameters nw =
     hidden_parameters 0 (hidden_layers nw) @
     [(''output.weight'', weight (output nw)), (''output.bias'', bias (output nw))]"

text \<open>\<^verbatim>\<open>model.state_dict()\<close>: an ordered dictionary from parameter name to values.\<close>

definition state_dict :: "network \<Rightarrow> (string \<times> tensor) list" where
  "state_dict nw = map (\<lambda>np. (fst np, pdata (snd np))) (network_parameters nw)"

text \<open>
  \<^verbatim>\<open>param.copy_(input_param)\<close>, reached only when the shapes are equal: the
  parameter takes the elements of the input. A key the dictionary lacks leaves the
  parameter as it is.
\<close>

definition copy_from :: "(string \<times> tensor) list \<Rightarrow> string \<Rightarrow> parameter \<Rightarrow> parameter" where
  "copy_from sd name p =
     (case map_of sd name of None \<Rightarrow> p
      | Some t \<Rightarrow> p\<lparr>pdata := \<lparr>shape = shape (pdata p), storage = elems t\<rparr>\<rparr>)"

fun map_hidden_parameters :: "(string \<Rightarrow> parameter \<Rightarrow> parameter) \<Rightarrow> nat \<Rightarrow> linear list \<Rightarrow> linear list" where
  "map_hidden_parameters f k [] = []"
| "map_hidden_parameters f k (l # ls) =
     l\<lparr>weight := f (hidden_name k ''weight'') (weight l),
       bias := f (hidden_name k ''bias'') (bias l)\<rparr>
     # map_hidden_parameters f (Suc k) ls"

definition map_network_parameters :: "(string \<Rightarrow> parameter \<Rightarrow> parameter) \<Rightarrow> network \<Rightarrow> network" where
  "map_network_parameters f nw =
     nw\<lparr>hidden_layers := map_hidden_parameters f 0 (hidden_layers nw),
        output := (output nw)\<lparr>weight := f ''output.weight'' (weight (output nw)),
                               bias := f ''output.bias'' (bias (output nw))\<rparr>\<rparr>"

text \<open>
  \<^verbatim>\<open>model.load_state_dict(state_dict)\<close> of the library, in its strict mode. Every
  parameter of the model is looked up under its name: a key that is absent is a missing
  key, a tensor of another shape is a size mismatch, anything else is copied. Keys of the
  dictionary that name no parameter of the model are unexpected keys. When any of the
  three lists is not empty the call raises, with the three lists in its message.
\<close>

definition missing_keys :: "network \<Rightarrow> (string \<times> tensor) list \<Rightarrow> string list" where
  "missing_keys nw sd =
     map fst (filter (\<lambda>np. map_of sd (fst np) = None) (network_parameters nw))"

definition unexpected_keys :: "network \<Rightarrow> (string \<times> tensor) list \<Rightarrow> string list" where
  "unexpected_keys nw sd =
     filter (\<lambda>k. k \<notin> set (map fst (network_parameters nw))) (map fst sd)"

definition size_mismatches :: "network \<Rightarrow> (string \<times> tensor) list \<Rightarrow> string list" where
  "size_mismatches nw sd =
     map fst (filter (\<lambda>np. case map_of sd (fst np) of None \<Rightarrow> False
                             | Some t \<Rightarrow> shape t \<noteq> shape (pdata (snd np)))
                     (network_parameters nw))"

definition load_state_dict :: "network \<Rightarrow> (string \<times> tensor) list \<Rightarrow> error + network" where
  "load_state_dict nw sd =
     (if missing_keys nw sd = [] \<and> unexpected_keys nw sd = [] \<and> size_mismatches nw sd = []
      then Inr (map_network_parameters (copy_from sd) nw)
      else Inl (StateDictError (missing_keys nw sd) (unexpected_keys nw sd)
                  (size_mismatches nw sd)))"

section \<open>Checkpoints\<close>

text \<open>
  The values a checkpoint holds, and the files of the machine: \<^verbatim>\<open>torch.save\<close>
  writes an object to one path, \<^verbatim>\<open>torch.load\<close> reads it back.
\<close>

datatype pyval =
    PyInt int
  | PyIntList "int list"
  | PyStateDict "(string \<times> tensor) list"

type_synonym pydict = "(string \<times> pyval) list"

type_synonym files = "string \<rightharpoonup> pydict"

definition torch_save :: "pydict \<Rightarrow> string \<Rightarrow> files \<Rightarrow> files" where
  "torch_save obj path fs = fs(path \<mapsto> obj)"

definition torch_load :: "files \<Rightarrow> string \<Rightarrow> error + pydict" where
  "torch_load fs path = (case fs path of None \<Rightarrow> Inl FileNotFoundError | Some obj \<Rightarrow> Inr obj)"

definition dict_get :: "pydict \<Rightarrow> string \<Rightarrow> error + pyval" where
  "dict_get d k = (case map_of d k of None \<Rightarrow> Inl KeyError | Some v \<Rightarrow> Inr v)"

definition as_int :: "pyval \<Rightarrow> error + int" where
  "as_int v = (case v of PyInt i \<Rightarrow> Inr i | _ \<Rightarrow> Inl TypeError)"

definition as_int_list :: "pyval \<Rightarrow> error + int list" where
  "as_int_list v = (case v of PyIntList xs \<Rightarrow> Inr xs | _ \<Rightarrow> Inl TypeError)"

definition as_state_dict :: "pyval \<Rightarrow> error + (string \<times> tensor) list" where
  "as_state_dict v = (case v of PyStateDict sd \<Rightarrow> Inr sd | _ \<Rightarrow> Inl TypeError)"

text \<open>The checkpoint cell: the dictionary it builds and the file it writes.\<close>

definition checkpoint :: "network \<Rightarrow> pydict" where
  "checkpoint nw =
     [(''input_size'', PyInt 784),
      (''output_size'', PyInt 10),
      (''hidden_layers'', PyIntList (map (\<lambda>each. int (out_features each)) (hidden_layers nw))),
      (''state_dict'', PyStateDict (state_dict nw))]"

definition save_checkpoint :: "network \<Rightarrow> files \<Rightarrow> files" where
  "save_checkpoint nw fs = torch_save (checkpoint nw) ''checkpoint.pth'' fs"

text \<open>
  \<^verbatim>\<open>load_checkpoint(filepath)\<close>. The network is constructed from three arguments,
  so with the default dropout probability; \<open>init\<close> gives the random values its
  parameters have before the state dict is loaded.
\<close>

definition load_checkpoint :: "(string \<Rightarrow> nat \<Rightarrow> real) \<Rightarrow> files \<Rightarrow> string \<Rightarrow> error + network" where
  "load_checkpoint init fs filepath =
     bind_err (torch_load fs filepath) (\<lambda>ckpt.
     bind_err (bind_err (dict_get ckpt ''input_size'') as_int) (\<lambda>input_size.
     bind_err (bind_err (dict_get ckpt ''output_size'') as_int) (\<lambda>output_size.
     bind_err (bind_err (dict_get ckpt ''hidden_layers'') as_int_list) (\<lambda>hidden.
     bind_err (Network init input_size output_size hidden default_drop_p) (\<lambda>nw.
     bind_err (bind_err (dict_get ckpt ''state_dict'') as_state_dict) (\<lambda>sd.
     load_state_dict nw sd))))))"

section \<open>Well-formedness\<close>

text \<open>
  The shapes the library maintains for a linear layer: a weight of shape
  \<open>(out_features, in_features)\<close> and a bias of shape \<open>(out_features)\<close>, each with
  storage for all its elements.
\<close>

definition linear_wf :: "linear \<Rightarrow> bool" where
  "linear_wf l =
     (shape (pdata (weight l)) = [out_features l, in_features l] \<and>
      tensor_wf (pdata (weight l)) \<and>
      shape (pdata (bias l)) = [out_features l] \<and>
      tensor_wf (pdata (bias l)))"

text \<open>
  \<open>seq_dims ms n\<close> follows an input of width \<open>n\<close> through the modules: the width it
  leaves with, or \<open>None\<close> when some linear layer expects another width.
\<close>

fun seq_dims :: "sequential \<Rightarrow> nat \<Rightarrow> nat option" where
  "seq_dims [] n = Some n"
| "seq_dims ((name, Linear l) # ms) n =
     (if in_features l = n then seq_dims ms (out_features l) else None)"
| "seq_dims ((name, ReLU) # ms) n = seq_dims ms n"

fun seq_wf :: "sequential \<Rightarrow> bool" where
  "seq_wf [] = True"
| "seq_wf ((name, Linear l) # ms) = (linear_wf l \<and> seq_wf ms)"
| "seq_wf ((name, ReLU) # ms) = seq_wf ms"

text \<open>
  The gradients a network holds, under the parameter names, and the invariant the
  library keeps for them: a gradient has as many cells as its parameter. A gradient is
  cleared when it is absent or zero in every cell.
\<close>

definition grads :: "sequential \<Rightarrow> (string \<times> real list option) list" where
  "grads ms = map (\<lambda>np. (fst np, pgrad (snd np))) (named_parameters ms)"

definition grad_wf :: "parameter \<Rightarrow> bool" where
  "grad_wf p = (case pgrad p of None \<Rightarrow> True
                | Some d \<Rightarrow> length d = numel (shape (pdata p)))"

definition grads_wf :: "sequential \<Rightarrow> bool" where
  "grads_wf ms = list_all (\<lambda>np. grad_wf (snd np)) (named_parameters ms)"

definition grad_cleared :: "parameter \<Rightarrow> bool" where
  "grad_cleared p = (case pgrad p of None \<Rightarrow> True
                     | Some d \<Rightarrow> d = replicate (numel (shape (pdata p))) 0)"

text \<open>The network an iteration leaves behind when nothing was raised in it.\<close>

definition step_net :: "env \<Rightarrow> real \<Rightarrow> sequential \<Rightarrow> tensor \<Rightarrow> nat list \<Rightarrow> sequential" where
  "step_net ev lr ms images labels =
     optimizer_step lr (backward (autograd ev (zero_grad ms) images labels) (zero_grad ms))"

text \<open>
  The values \<^verbatim>\<open>loss.item()\<close> takes in the successive iterations over the batches,
  up to the first iteration that raises.
\<close>

fun batch_losses :: "env \<Rightarrow> real \<Rightarrow> sequential \<Rightarrow> (tensor \<times> nat list) list \<Rightarrow> real list" where
  "batch_losses ev lr ms [] = []"
| "batch_losses ev lr ms (b # bs) =
     (case train_step ev lr ms b of Inl err \<Rightarrow> []
      | Inr r \<Rightarrow> snd r # batch_losses ev lr (fst r) bs)"

text \<open>
  A network as the constructor builds it and training leaves it: the widths of the layers
  chain from the input size to the output size, every width is positive, and every
  parameter has the shape of its layer and storage for exactly its elements.
\<close>

definition linear_exact :: "linear \<Rightarrow> bool" where
  "linear_exact l =
     (shape (pdata (weight l)) = [out_features l, in_features l] \<and>
      length (storage (pdata (weight l))) = out_features l * in_features l \<and>
      shape (pdata (bias l)) = [out_features l] \<and>
      length (storage (pdata (bias l))) = out_features l)"

fun chain_wf :: "nat \<Rightarrow> linear list \<Rightarrow> bool" where
  "chain_wf n [] = True"
| "chain_wf n (l # ls) =
     (in_features l = n \<and> 0 < out_features l \<and> linear_exact l \<and> chain_wf (out_features l) ls)"

definition network_wf :: "nat \<Rightarrow> nat \<Rightarrow> network \<Rightarrow> bool" where
  "network_wf i out nw =
     (0 < i \<and> chain_wf i (hidden_layers nw @ [output nw]) \<and> out_features (output nw) = out)"

text \<open>The hidden sizes of a network, as the checkpoint cell reads them off its layers.\<close>

definition hidden_widths :: "network \<Rightarrow> int list" where
  "hidden_widths nw = map (\<lambda>each. int (out_features each)) (hidden_layers nw)"

text \<open>A layer as a freshly constructed network holds it: the values, and no gradient yet.\<close>

definition fresh_grads :: "linear \<Rightarrow> linear" where
  "fresh_grads l = l\<lparr>weight := (weight l)\<lparr>pgrad := None\<rparr>, bias := (bias l)\<lparr>pgrad := None\<rparr>\<rparr>"

text \<open>
  Two layers of the same architecture, the first one freshly constructed: the same
  widths, parameters of the same shapes, and no gradient in the first.
\<close>

definition fresh_twin :: "linear \<Rightarrow> linear \<Rightarrow> bool" where
  "fresh_twin l0 l =
     (in_features l0 = in_features l \<and> out_features l0 = out_features l \<and>
      shape (pdata (weight l0)) = shape (pdata (weight l)) \<and>
      shape (pdata (bias l0)) = shape (pdata (bias l)) \<and>
      pgrad (weight l0) = None \<and> pgrad (bias l0) = None)"

text \<open>An entry of a state dict: the name of a parameter and its values.\<close>

definition sd_entry :: "string \<times> parameter \<Rightarrow> string \<times> tensor" where
  "sd_entry np = (fst np, pdata (snd np))"

section \<open>Concrete inputs\<close>

text \<open>
  Inputs at which the theorems below are instantiated: initial values that are zero
  everywhere, and initial values that give the \<open>logits\<close> layer the bias \<open>(-1, 3, 3, ...)\<close>.
\<close>

definition zero_init :: "string \<Rightarrow> nat \<Rightarrow> real" where
  "zero_init name i = 0"

definition demo_init :: "string \<Rightarrow> nat \<Rightarrow> real" where
  "demo_init name i = (if name = ''logits.bias'' then (if i = 0 then - 1 else 3) else 0)"

text \<open>
  Two environments in which every batch has the loss one: in the first every derivative
  is zero, in the second every derivative is one.
\<close>

definition zero_env :: env where
  "zero_env = \<lparr>garbage = (\<lambda>i. 0), criterion = (\<lambda>output labels. Inr 1),
                autograd = (\<lambda>net images labels name i. 0)\<rparr>"

definition unit_env :: env where
  "unit_env = \<lparr>garbage = (\<lambda>i. 0), criterion = (\<lambda>output labels. Inr 1),
                autograd = (\<lambda>net images labels name i. 1)\<rparr>"

text \<open>
  A batch of one black image of 28 by 28 pixels with the label zero, as the loader yields
  it; the same image flattened; and the dropout mask that keeps every cell.
\<close>

definition blank_image :: "tensor \<times> nat list" where
  "blank_image = (\<lparr>shape = [1, 1, 28, 28], storage = replicate 784 0\<rparr>, [0])"

definition blank_batch :: tensor where
  "blank_batch = \<lparr>shape = [1, 784], storage = replicate 784 0\<rparr>"

definition all_kept :: "nat \<Rightarrow> nat \<Rightarrow> bool" where
  "all_kept k i = True"

text \<open>Initial values that differ from cell to cell: cell \<open>i\<close> of every parameter holds \<open>i + 1\<close>.\<close>

definition ramp_init :: "string \<Rightarrow> nat \<Rightarrow> real" where
  "ramp_init name i = real i + 1"

section \<open>Properties of the layers and of the network\<close>

lemma bind_err_simps [simp]:
  "bind_err (Inl e) f = Inl e" "bind_err (Inr v) f = f v"
  by (simp_all add: bind_err_def)

lemma bind_err_eq_Inr:
  "bind_err m f = Inr y \<longleftrightarrow> (\<exists>v. m = Inr v \<and> f v = Inr y)"
  by (cases m) simp_all

lemma length_elems: "tensor_wf t \<Longrightarrow> length (elems t) = numel (shape t)"
  by (simp add: elems_def tensor_wf_def)

lemma length_rows: "length (rows t) = numel (butlast (shape t))"
  by (simp add: rows_def Let_def)

lemma length_affine: "length (affine W b x) = min (length W) (length b)"
  by (simp add: affine_def)

lemma nn_Linear_ok:
  "0 \<le> i \<Longrightarrow> 0 \<le> out \<Longrightarrow> \<exists>l. nn_Linear wi bi i out = Inr l \<and> in_features l = nat i \<and> out_features l = nat out \<and> linear_wf l"
  by (auto simp: nn_Linear_def linear_wf_def tensor_wf_def numel_def)

lemma length_concat_const:
  "(\<And>x. x \<in> set xs \<Longrightarrow> length (f x) = k) \<Longrightarrow> length (concat (map f xs)) = length xs * k"
  by (induction xs) auto

lemma linear_forward_ok:
  assumes "shape x \<noteq> []" "last (shape x) = in_features l"
  shows "\<exists>y. linear_forward l x = Inr y \<and> shape y = butlast (shape x) @ [out_features l]"
  using assms by (simp add: linear_forward_def)

lemma linear_forward_wf:
  assumes "linear_wf l" "linear_forward l x = Inr y"
  shows "tensor_wf y"
proof -
  from assms(2) have y: "y = \<lparr>shape = butlast (shape x) @ [out_features l],
                storage = concat (map (affine (rows (pdata (weight l)))
                                              (elems (pdata (bias l)))) (rows x))\<rparr>"
    by (auto simp: linear_forward_def split: if_splits)
  have "length (rows (pdata (weight l))) = out_features l"
    using assms(1) by (simp add: length_rows linear_wf_def numel_def)
  moreover have "length (elems (pdata (bias l))) = out_features l"
    using assms(1) by (simp add: length_elems linear_wf_def numel_def)
  ultimately have "length (storage y) = numel (butlast (shape x)) * out_features l"
    unfolding y by (simp add: length_concat_const length_affine length_rows)
  then show ?thesis by (simp add: tensor_wf_def y numel_def)
qed

lemma relu_shape [simp]: "shape (relu x) = shape x"
  by (simp add: relu_def)

lemma relu_wf: "tensor_wf x \<Longrightarrow> tensor_wf (relu x)"
  by (simp add: relu_def tensor_wf_def)

lemma forward_seq_dims:
  "seq_dims ms n = Some k \<Longrightarrow> shape x \<noteq> [] \<Longrightarrow> last (shape x) = n \<Longrightarrow>
   \<exists>y. forward ms x = Inr y \<and> shape y = butlast (shape x) @ [k]"
proof (induction ms n arbitrary: x rule: seq_dims.induct)
  case (1 n)
  then show ?case using append_butlast_last_id [of "shape x"] by simp
next
  case (2 name l ms n)
  from "2.prems" have d: "in_features l = n" "seq_dims ms (out_features l) = Some k"
    by (auto split: if_splits)
  from linear_forward_ok [of x l] "2.prems" d obtain y where
    y: "linear_forward l x = Inr y" "shape y = butlast (shape x) @ [out_features l]"
    by auto
  from "2.IH" [OF d(1) d(2), of y] y obtain z where
    "forward ms y = Inr z" "shape z = butlast (shape y) @ [k]" by auto
  with y show ?case by simp
next
  case (3 name ms n)
  from "3.IH" [of "relu x"] "3.prems" show ?case by simp
qed

lemma forward_seq_wf:
  "seq_wf ms \<Longrightarrow> tensor_wf x \<Longrightarrow> forward ms x = Inr y \<Longrightarrow> tensor_wf y"
proof (induction ms arbitrary: x rule: seq_wf.induct)
  case 1
  then show ?case by simp
next
  case (2 name l ms)
  then show ?case by (auto simp: bind_err_eq_Inr dest: linear_forward_wf)
next
  case (3 name ms)
  from "3.IH" [of "relu x"] "3.prems" show ?case by (simp add: relu_wf)
qed

lemma model_ok:
  assumes "0 \<le> i" "0 \<le> out" "2 \<le> length hs" "0 \<le> hs ! 0" "0 \<le> hs ! 1"
  shows "\<exists>m. model init i hs out = Inr m \<and> seq_dims m (nat i) = Some (nat out) \<and> seq_wf m"
proof -
  obtain fc1 where fc1: "nn_Linear (init ''fc1.weight'') (init ''fc1.bias'') i (hs ! 0) = Inr fc1"
    "in_features fc1 = nat i" "out_features fc1 = nat (hs ! 0)" "linear_wf fc1"
    using nn_Linear_ok [OF assms(1) assms(4)] by blast
  obtain fc2 where fc2: "nn_Linear (init ''fc2.weight'') (init ''fc2.bias'') (hs ! 0) (hs ! 1) = Inr fc2"
    "in_features fc2 = nat (hs ! 0)" "out_features fc2 = nat (hs ! 1)" "linear_wf fc2"
    using nn_Linear_ok [OF assms(4) assms(5)] by blast
  obtain lg where lg: "nn_Linear (init ''logits.weight'') (init ''logits.bias'') (hs ! 1) out = Inr lg"
    "in_features lg = nat (hs ! 1)" "out_features lg = nat out" "linear_wf lg"
    using nn_Linear_ok [OF assms(5) assms(2)] by blast
  have g: "list_get hs 0 = Inr (hs ! 0)" "list_get hs 1 = Inr (hs ! 1)"
    using assms(3) by (auto simp: list_get_def)
  show ?thesis
    by (simp add: model_def g fc1 fc2 lg del: One_nat_def)
qed

text \<open>
  Claim C3, as the code has it. The model cell reads \<open>hidden_sizes[0]\<close> and
  \<open>hidden_sizes[1]\<close>. For positive sizes and a list of at least two hidden sizes the
  network is built, and its forward pass maps every batch of shape
  \<open>(batch_size, input_size)\<close> to an output of shape \<open>(batch_size, output_size)\<close>.
\<close>

theorem forward_output_shape:
  assumes "0 < input_size" "0 < output_size" "2 \<le> length hidden_sizes"
    and "\<forall>h \<in> set hidden_sizes. 0 < h"
    and "shape x = [batch_size, nat input_size]"
  shows "\<exists>m y. model init input_size hidden_sizes output_size = Inr m \<and>
           forward m x = Inr y \<and> shape y = [batch_size, nat output_size]"
proof -
  have "0 \<le> hidden_sizes ! 0" "0 \<le> hidden_sizes ! 1"
  proof -
    have "0 < length hidden_sizes" "1 < length hidden_sizes" using assms(3) by auto
    then have "hidden_sizes ! 0 \<in> set hidden_sizes" "hidden_sizes ! 1 \<in> set hidden_sizes"
      by (simp_all only: nth_mem)
    with assms(4) show "0 \<le> hidden_sizes ! 0" "0 \<le> hidden_sizes ! 1"
      by (auto simp: less_imp_le)
  qed
  with model_ok [of input_size output_size hidden_sizes init] assms obtain m where
    m: "model init input_size hidden_sizes output_size = Inr m"
       "seq_dims m (nat input_size) = Some (nat output_size)" by auto
  from forward_seq_dims [OF m(2), of x] assms(5) obtain y where
    "forward m x = Inr y" "shape y = [batch_size, nat output_size]" by auto
  with m show ?thesis by blast
qed

text \<open>The theorem at a network with three inputs, two hidden layers of two and two outputs.\<close>

theorem forward_output_shape_witness:
  "\<exists>m y. model zero_init 3 [2, 2] 2 = Inr m \<and>
     forward m \<lparr>shape = [1, 3], storage = [1, 2, 3]\<rparr> = Inr y \<and> shape y = [1, 2]"
  using forward_output_shape [of 3 2 "[2, 2]" "\<lparr>shape = [1, 3], storage = [1, 2, 3]\<rparr>" 1 zero_init]
  by simp

text \<open>
  Claim C3 as stated ranges over every configuration the data model allows, and that
  includes a list of fewer than two hidden sizes: there the model cell raises IndexError
  and no network is built.
\<close>

theorem short_hidden_sizes_counterexample:
  "model zero_init 784 [128] 10 = Inl IndexError"
  by (simp add: model_def list_get_def nn_Linear_def)

text \<open>
  The structure of every network the model cell builds.
\<close>

lemma model_Inr:
  assumes "model init i hs out = Inr m"
  shows "\<exists>fc1 fc2 lg. m = [(''fc1'', Linear fc1), (''relu1'', ReLU), (''fc2'', Linear fc2),
            (''relu2'', ReLU), (''logits'', Linear lg)] \<and>
          in_features fc1 = nat i \<and> out_features lg = nat out \<and> linear_wf lg \<and>
          seq_dims m (nat i) = Some (nat out)"
proof -
  from assms obtain h0 fc1 h1 fc2 lg where
    a: "nn_Linear (init ''fc1.weight'') (init ''fc1.bias'') i h0 = Inr fc1"
       "nn_Linear (init ''logits.weight'') (init ''logits.bias'') h1 out = Inr lg"
       "nn_Linear (init ''fc2.weight'') (init ''fc2.bias'') h0 h1 = Inr fc2"
    and m: "m = [(''fc1'', Linear fc1), (''relu1'', ReLU), (''fc2'', Linear fc2),
            (''relu2'', ReLU), (''logits'', Linear lg)]"
    unfolding model_def by (auto simp: bind_err_eq_Inr)
  from a(1) have fc1: "in_features fc1 = nat i" "out_features fc1 = nat h0"
    by (auto simp: nn_Linear_def split: if_splits)
  from a(3) have fc2: "in_features fc2 = nat h0" "out_features fc2 = nat h1"
    by (auto simp: nn_Linear_def split: if_splits)
  from a(2) have lg: "in_features lg = nat h1" "out_features lg = nat out" "linear_wf lg"
    by (auto simp: nn_Linear_def linear_wf_def tensor_wf_def numel_def split: if_splits)
  have "seq_dims m (nat i) = Some (nat out)"
    by (simp add: m fc1 fc2 lg)
  with fc1 lg m show ?thesis by blast
qed

lemma forward_append:
  "forward (ms @ ns) x = bind_err (forward ms x) (forward ns)"
proof (induction ms arbitrary: x)
  case Nil
  then show ?case by simp
next
  case (Cons a ms)
  obtain name md where a: "a = (name, md)" by (cases a)
  show ?case
    by (cases "module_forward md x") (simp_all add: a Cons.IH)
qed

lemma forward_last_linear:
  "forward (body @ [(name, Linear l)]) x = bind_err (forward body x) (linear_forward l)"
proof -
  have "forward [(name, Linear l)] = linear_forward l"
  proof
    fix y show "forward [(name, Linear l)] y = linear_forward l y"
      by (cases "linear_forward l y") simp_all
  qed
  then show ?thesis by (simp add: forward_append)
qed

lemma linear_forward_Inr:
  "linear_forward l h = Inr y \<Longrightarrow>
   y = \<lparr>shape = butlast (shape h) @ [out_features l],
        storage = concat (map (affine (rows (pdata (weight l))) (elems (pdata (bias l)))) (rows h))\<rparr>"
  by (auto simp: linear_forward_def split: if_splits)

lemma affine_length_wf:
  "linear_wf l \<Longrightarrow> length (affine (rows (pdata (weight l))) (elems (pdata (bias l))) r) = out_features l"
  by (simp add: length_affine length_rows length_elems linear_wf_def numel_def)

text \<open>
  Claim C5: the last module of the network is the linear layer \<open>logits\<close>, and the
  output of the forward pass is its affine map \<open>W h + b\<close> of the last hidden activation
  \<open>h\<close>, row by row, \<open>output_size\<close> scores per row: nothing is applied after it.
\<close>

theorem logits_are_raw_scores:
  assumes "model init input_size hidden_sizes output_size = Inr m"
    and "forward m x = Inr y"
  shows "\<exists>body lg h. m = body @ [(''logits'', Linear lg)] \<and> forward body x = Inr h \<and>
           shape y = butlast (shape h) @ [nat output_size] \<and>
           storage y = concat (map (affine (rows (pdata (weight lg))) (elems (pdata (bias lg))))
                                   (rows h)) \<and>
           (\<forall>r \<in> set (rows h).
              length (affine (rows (pdata (weight lg))) (elems (pdata (bias lg))) r)
                = nat output_size)"
proof -
  from model_Inr [OF assms(1)] obtain fc1 fc2 lg where
    m: "m = [(''fc1'', Linear fc1), (''relu1'', ReLU), (''fc2'', Linear fc2),
            (''relu2'', ReLU)] @ [(''logits'', Linear lg)]"
    and lg: "out_features lg = nat output_size" "linear_wf lg" by auto
  define body where "body = [(''fc1'', Linear fc1), (''relu1'', ReLU), (''fc2'', Linear fc2),
            (''relu2'', ReLU)]"
  have mb: "m = body @ [(''logits'', Linear lg)]" using m by (simp add: body_def)
  from assms(2) have "bind_err (forward body x) (linear_forward lg) = Inr y"
    unfolding mb by (simp only: forward_last_linear)
  then obtain h where h: "forward body x = Inr h" "linear_forward lg h = Inr y"
    by (auto simp: bind_err_eq_Inr)
  from linear_forward_Inr [OF h(2)] lg(1) have
    "shape y = butlast (shape h) @ [nat output_size]"
    "storage y = concat (map (affine (rows (pdata (weight lg))) (elems (pdata (bias lg)))) (rows h))"
    by simp_all
  moreover have "\<forall>r \<in> set (rows h).
      length (affine (rows (pdata (weight lg))) (elems (pdata (bias lg))) r) = nat output_size"
    using affine_length_wf [OF lg(2)] lg(1) by simp
  ultimately show ?thesis using mb h(1) by blast
qed

lemma demo_eval:
  "\<exists>m. model demo_init 1 [1, 1] 2 = Inr m \<and>
     forward m \<lparr>shape = [1, 1], storage = [1]\<rparr> = Inr \<lparr>shape = [1, 2], storage = [- 1, 3]\<rparr>"
  by (simp add: model_def list_get_def nn_Linear_def demo_init_def linear_forward_def relu_def
       rows_def elems_def numel_def affine_def dot_def upt_rec)

text \<open>
  The theorem at a network whose output is \<open>(-1, 3)\<close>: a negative score, and scores
  that do not sum to one, leave the network as they are.
\<close>

theorem logits_are_raw_scores_witness:
  "\<exists>m y body lg h. model demo_init 1 [1, 1] 2 = Inr m \<and>
     forward m \<lparr>shape = [1, 1], storage = [1]\<rparr> = Inr y \<and> storage y = [- 1, 3] \<and>
     m = body @ [(''logits'', Linear lg)] \<and>
     forward body \<lparr>shape = [1, 1], storage = [1]\<rparr> = Inr h \<and>
     shape y = butlast (shape h) @ [nat 2] \<and>
     storage y = concat (map (affine (rows (pdata (weight lg))) (elems (pdata (bias lg))))
                             (rows h))"
proof -
  from demo_eval obtain m where
    m: "model demo_init 1 [1, 1] 2 = Inr m"
       "forward m \<lparr>shape = [1, 1], storage = [1]\<rparr> = Inr \<lparr>shape = [1, 2], storage = [- 1, 3]\<rparr>"
    by blast
  from logits_are_raw_scores [OF m] obtain body lg h where
    "m = body @ [(''logits'', Linear lg)]"
    "forward body \<lparr>shape = [1, 1], storage = [1]\<rparr> = Inr h"
    "shape \<lparr>shape = [1, 2], storage = [- 1, 3]\<rparr> = butlast (shape h) @ [nat 2]"
    "storage \<lparr>shape = [1, 2], storage = [- 1, 3::real]\<rparr> =
       concat (map (affine (rows (pdata (weight lg))) (elems (pdata (bias lg)))) (rows h))"
    by blast
  with m show ?thesis by (intro exI conjI) (assumption | simp)+
qed

lemma seq_dims_map_named_parameters [simp]:
  "seq_dims (map_named_parameters f ms) n = seq_dims ms n"
  by (induction ms n rule: seq_dims.induct) simp_all

lemma seq_dims_zero_grad [simp]: "seq_dims (zero_grad ms) n = seq_dims ms n"
  by (simp add: zero_grad_def)

lemma seq_dims_backward [simp]: "seq_dims (backward g ms) n = seq_dims ms n"
  by (simp add: backward_def)

lemma seq_dims_optimizer_step [simp]: "seq_dims (optimizer_step lr ms) n = seq_dims ms n"
  by (simp add: optimizer_step_def)

lemma flatten_batch_ok:
  "shape images \<noteq> [] \<Longrightarrow>
   flatten_batch ev images = Inr (resize_inplace (garbage ev) images [hd (shape images), 784])"
  by (cases "shape images") (simp_all add: flatten_batch_def size0_def)

lemma shape_resize_inplace [simp]: "shape (resize_inplace g t sz) = sz"
  by (simp add: resize_inplace_def)

lemma forward_first_linear_mismatch:
  "shape x = [] \<or> last (shape x) \<noteq> in_features l \<Longrightarrow>
   forward ((name, Linear l) # ms) x = Inl InputShapeError"
  by (auto simp: linear_forward_def)

lemma flattened_forward:
  assumes "seq_dims m 784 = Some k" "shape images \<noteq> []"
  shows "\<exists>flat y. flatten_batch ev images = Inr flat \<and>
           shape flat = [hd (shape images), 784] \<and>
           forward (zero_grad m) flat = Inr y \<and> shape y = [hd (shape images), k]"
proof -
  let ?flat = "resize_inplace (garbage ev) images [hd (shape images), 784]"
  have d: "seq_dims (zero_grad m) 784 = Some k" using assms(1) by simp
  from forward_seq_dims [OF d, of ?flat] obtain y where
    "forward (zero_grad m) ?flat = Inr y" "shape y = [hd (shape images), k]"
    by auto
  with flatten_batch_ok [OF assms(2), of ev] show ?thesis by auto
qed

text \<open>
  Claim C6, as the code has it. The forward pass raises an input-shape error for every
  input whose last dimension is not the configured input size. In a training iteration
  the batch is first resized in place, to \<open>(batch_size, 784)\<close> in the loop and to
  \<open>(64, 784)\<close> in the single-step cell, so the forward pass of an iteration receives an
  input of width 784 and, when the configured input size is 784, returns scores of shape
  \<open>(batch_size, output_size)\<close>.
\<close>

theorem forward_rejects_resize_coerces:
  assumes "model init input_size hidden_sizes output_size = Inr m"
  shows "(shape x = [] \<or> last (shape x) \<noteq> nat input_size \<longrightarrow>
            forward m x = Inl InputShapeError) \<and>
         (input_size = 784 \<and> shape images \<noteq> [] \<longrightarrow>
            (\<exists>flat y. flatten_batch ev images = Inr flat \<and>
               shape flat = [hd (shape images), 784] \<and>
               forward (zero_grad m) flat = Inr y \<and>
               shape y = [hd (shape images), nat output_size])) \<and>
         (input_size = 784 \<longrightarrow>
            (\<exists>y. forward (zero_grad m) (resize_inplace (garbage ev) images [64, 784]) = Inr y \<and>
               shape y = [64, nat output_size]))"
proof (intro conjI impI)
  from model_Inr [OF assms] obtain fc1 fc2 lg where
    m: "m = [(''fc1'', Linear fc1), (''relu1'', ReLU), (''fc2'', Linear fc2),
            (''relu2'', ReLU), (''logits'', Linear lg)]"
    and fc1: "in_features fc1 = nat input_size"
    and d: "seq_dims m (nat input_size) = Some (nat output_size)" by auto
  {
    assume "shape x = [] \<or> last (shape x) \<noteq> nat input_size"
    then show "forward m x = Inl InputShapeError"
      unfolding m using fc1 by (intro forward_first_linear_mismatch) simp
  }
  {
    assume a: "input_size = 784 \<and> shape images \<noteq> []"
    then have "seq_dims m 784 = Some (nat output_size)" using d by simp
    from flattened_forward [OF this, of images ev] a
    show "\<exists>flat y. flatten_batch ev images = Inr flat \<and>
               shape flat = [hd (shape images), 784] \<and>
               forward (zero_grad m) flat = Inr y \<and>
               shape y = [hd (shape images), nat output_size]" by simp
  }
  {
    assume a: "input_size = 784"
    have d': "seq_dims (zero_grad m) 784 = Some (nat output_size)" using d a by simp
    from forward_seq_dims [OF d', of "resize_inplace (garbage ev) images [64, 784]"]
    show "\<exists>y. forward (zero_grad m) (resize_inplace (garbage ev) images [64, 784]) = Inr y \<and>
               shape y = [64, nat output_size]" by auto
  }
qed

lemma mnist_model_ok:
  "\<exists>m. model zero_init 784 [128, 64] 10 = Inr m"
  using model_ok [of 784 10 "[128, 64]" zero_init] by auto

text \<open>
  The theorem at the network of the notebook: a direct input of width 4 is refused, a
  batch of two 28 by 28 images passes.
\<close>

theorem forward_rejects_resize_coerces_witness:
  "\<exists>m flat y. model zero_init 784 [128, 64] 10 = Inr m \<and>
     forward m \<lparr>shape = [1, 4], storage = [1, 2, 3, 4]\<rparr> = Inl InputShapeError \<and>
     flatten_batch zero_env \<lparr>shape = [2, 1, 28, 28], storage = replicate 1568 0\<rparr> = Inr flat \<and>
     shape flat = [2, 784] \<and> forward (zero_grad m) flat = Inr y \<and> shape y = [2, 10]"
proof -
  from mnist_model_ok obtain m where m: "model zero_init 784 [128, 64] 10 = Inr m" ..
  from forward_rejects_resize_coerces [OF m, of "\<lparr>shape = [1, 4], storage = [1, 2, 3, 4]\<rparr>"
      "\<lparr>shape = [2, 1, 28, 28], storage = replicate 1568 0\<rparr>" zero_env] m
  show ?thesis by auto
qed

text \<open>
  Claim C6 as stated fails: a batch of one 2 by 2 image has the flattened dimension 4,
  not 784, and the iteration resizes it to \<open>(1, 784)\<close> and computes scores of shape
  \<open>(1, 10)\<close> from it; no error is raised.
\<close>

theorem resized_batch_counterexample:
  "map_sum id shape
     (bind_err (model zero_init 784 [128, 64] 10) (\<lambda>m.
      bind_err (flatten_batch zero_env \<lparr>shape = [1, 1, 2, 2], storage = [1, 2, 3, 4]\<rparr>)
        (forward (zero_grad m))))
   = Inr [1, 10]"
proof -
  from mnist_model_ok obtain m where m: "model zero_init 784 [128, 64] 10 = Inr m" ..
  from model_Inr [OF m] have "seq_dims m 784 = Some 10" by auto
  from flattened_forward [OF this, of "\<lparr>shape = [1, 1, 2, 2], storage = [1, 2, 3, 4]\<rparr>" zero_env]
  obtain flat y where
    "flatten_batch zero_env \<lparr>shape = [1, 1, 2, 2], storage = [1, 2, 3, 4]\<rparr> = Inr flat"
    "forward (zero_grad m) flat = Inr y" "shape y = [1, 10]" by auto
  with m show ?thesis by simp
qed

text \<open>
  Gradients through one iteration of the loop.
\<close>

lemma named_parameters_map:
  "named_parameters (map_named_parameters f ms) =
   map (\<lambda>np. (fst np, f (fst np) (snd np))) (named_parameters ms)"
  by (induction f ms rule: map_named_parameters.induct) simp_all

lemma map2_add_zeros:
  "length old = length new \<Longrightarrow> map2 (+) (map (\<lambda>g. 0::real) old) new = new"
  by (induction old new rule: list_induct2) simp_all

lemma accumulate_after_zero:
  assumes "grad_wf p"
  shows "pgrad (sgd_parameter lr (accumulate_grad d (zero_grad_parameter p))) =
         Some (map d [0..<numel (shape (pdata p))])"
proof (cases "pgrad p")
  case None
  then show ?thesis
    by (simp add: sgd_parameter_def accumulate_grad_def zero_grad_parameter_def Let_def)
next
  case (Some old)
  with assms have "length old = length (map d [0..<numel (shape (pdata p))])"
    by (simp add: grad_wf_def)
  from map2_add_zeros [OF this] Some show ?thesis
    by (simp add: sgd_parameter_def accumulate_grad_def zero_grad_parameter_def Let_def)
qed

lemma shape_after_step [simp]:
  "shape (pdata (sgd_parameter lr p)) = shape (pdata p)"
  "shape (pdata (accumulate_grad d p)) = shape (pdata p)"
  "shape (pdata (zero_grad_parameter p)) = shape (pdata p)"
  by (simp_all add: sgd_parameter_def accumulate_grad_def zero_grad_parameter_def Let_def
        split: option.splits)

lemma zero_grad_cleared: "grad_wf p \<Longrightarrow> grad_cleared (zero_grad_parameter p)"
  by (auto simp: grad_wf_def grad_cleared_def zero_grad_parameter_def map_replicate_const
        split: option.splits)

lemma zero_grad_all_cleared:
  "grads_wf ms \<Longrightarrow> list_all (\<lambda>np. grad_cleared (snd np)) (named_parameters (zero_grad ms))"
  by (simp add: grads_wf_def zero_grad_def named_parameters_map list_all_iff zero_grad_cleared)

lemma grads_step_net:
  assumes "grads_wf ms"
  shows "grads (step_net ev lr ms images labels) =
         map (\<lambda>np. (fst np, Some (map (autograd ev (zero_grad ms) images labels (fst np))
                                      [0..<numel (shape (pdata (snd np)))])))
             (named_parameters ms)"
  using assms
  by (simp add: step_net_def grads_def optimizer_step_def backward_def zero_grad_def
        named_parameters_map grads_wf_def list_all_iff accumulate_after_zero)

lemma grads_wf_step_net:
  assumes "grads_wf ms"
  shows "grads_wf (step_net ev lr ms images labels)"
  using assms
  by (simp add: step_net_def grads_wf_def optimizer_step_def backward_def zero_grad_def
        named_parameters_map list_all_iff grad_wf_def accumulate_after_zero)

lemma train_core_Inr:
  "train_core ev lr ms images labels = Inr r \<Longrightarrow>
   fst r = step_net ev lr ms images labels \<and>
   (\<exists>output. forward (zero_grad ms) images = Inr output \<and> criterion ev output labels = Inr (snd r))"
  by (auto simp: train_core_def step_net_def Let_def bind_err_eq_Inr)

lemma train_step_Inr:
  "train_step ev lr ms b = Inr r \<Longrightarrow>
   \<exists>flat output. flatten_batch ev (fst b) = Inr flat \<and>
     forward (zero_grad ms) flat = Inr output \<and> criterion ev output (snd b) = Inr (snd r) \<and>
     fst r = step_net ev lr ms flat (snd b)"
  by (auto simp: train_step_def bind_err_eq_Inr dest: train_core_Inr)

lemma train_batches_append:
  "train_batches ev lr pe E e st (bs @ cs) =
   bind_err (train_batches ev lr pe E e st bs) (\<lambda>st1. train_batches ev lr pe E e st1 cs)"
proof (induction bs arbitrary: st)
  case Nil
  then show ?case by simp
next
  case (Cons b bs)
  show ?case
  proof (cases "train_step ev lr (net st) b")
    case (Inl err)
    then show ?thesis by (simp add: Let_def)
  next
    case (Inr r)
    then show ?thesis by (simp add: Let_def Cons.IH)
  qed
qed

lemma net_report [simp]: "net (report pe E e st) = net st"
  by (simp add: report_def)

lemma train_batches_Cons_Inr:
  assumes "train_batches ev lr pe E e st (b # bs) = Inr st'"
  shows "\<exists>r. train_step ev lr (net st) b = Inr r \<and> pe \<noteq> 0 \<and>
           train_batches ev lr pe E e
             (report pe E e (st\<lparr>steps := steps st + 1, net := fst r,
                                  running_loss := running_loss st + snd r\<rparr>)) bs = Inr st'"
  using assms by (auto simp: Let_def bind_err_eq_Inr split: if_splits)

lemma train_batches_last:
  assumes "train_batches ev lr pe E e st (bs @ [b]) = Inr st'"
  shows "\<exists>st1 r. train_batches ev lr pe E e st bs = Inr st1 \<and>
           train_step ev lr (net st1) b = Inr r \<and> net st' = fst r"
proof -
  from assms obtain st1 where
    st1: "train_batches ev lr pe E e st bs = Inr st1"
         "train_batches ev lr pe E e st1 [b] = Inr st'"
    by (auto simp: train_batches_append bind_err_eq_Inr)
  from train_batches_Cons_Inr [OF st1(2)] obtain r where
    "train_step ev lr (net st1) b = Inr r" "net st' = fst r"
    by auto
  with st1(1) show ?thesis by blast
qed

lemma train_batches_grads_wf:
  "train_batches ev lr pe E e st bs = Inr st' \<Longrightarrow> grads_wf (net st) \<Longrightarrow> grads_wf (net st')"
proof (induction bs arbitrary: st)
  case Nil
  then show ?case by simp
next
  case (Cons b bs)
  from train_batches_Cons_Inr [OF Cons.prems(1)] obtain r where
    r: "train_step ev lr (net st) b = Inr r"
    and rest: "train_batches ev lr pe E e
             (report pe E e (st\<lparr>steps := steps st + 1, net := fst r,
                                  running_loss := running_loss st + snd r\<rparr>)) bs = Inr st'"
    by blast
  from train_step_Inr [OF r] obtain flat where
    "fst r = step_net ev lr (net st) flat (snd b)" by blast
  with grads_wf_step_net [OF Cons.prems(2)] have w: "grads_wf (fst r)" by simp
  show ?case
    by (rule Cons.IH [OF rest]) (simp add: w)
qed

text \<open>
  Claim C4. Take any iteration of the inner loop: the batch \<open>b\<close> that follows the
  batches \<open>bs\<close>. The loop reaches it in a state \<open>st1\<close>; the forward pass of the
  iteration runs on the network after \<open>zero_grad\<close>, in which every gradient that
  exists is zero; and the gradients the iteration leaves behind are those that automatic
  differentiation computes for this batch alone, with nothing of the earlier batches
  added to them.
\<close>

theorem gradients_reset_each_iteration:
  assumes "train_batches ev lr print_every epochs e st (bs @ [b]) = Inr st'"
    and "grads_wf (net st)"
  shows "\<exists>st1 flat output.
           train_batches ev lr print_every epochs e st bs = Inr st1 \<and>
           flatten_batch ev (fst b) = Inr flat \<and>
           list_all (\<lambda>np. grad_cleared (snd np)) (named_parameters (zero_grad (net st1))) \<and>
           forward (zero_grad (net st1)) flat = Inr output \<and>
           grads (net st') =
             map (\<lambda>np. (fst np, Some (map (autograd ev (zero_grad (net st1)) flat (snd b) (fst np))
                                          [0..<numel (shape (pdata (snd np)))])))
                 (named_parameters (net st1))"
proof -
  from train_batches_last [OF assms(1)] obtain st1 r where
    st1: "train_batches ev lr print_every epochs e st bs = Inr st1"
    and r: "train_step ev lr (net st1) b = Inr r" "net st' = fst r" by blast
  have w: "grads_wf (net st1)" by (rule train_batches_grads_wf [OF st1 assms(2)])
  from train_step_Inr [OF r(1)] obtain flat scores where
    f: "flatten_batch ev (fst b) = Inr flat" "forward (zero_grad (net st1)) flat = Inr scores"
       "fst r = step_net ev lr (net st1) flat (snd b)" by blast
  have "grads (net st') =
      map (\<lambda>np. (fst np, Some (map (autograd ev (zero_grad (net st1)) flat (snd b) (fst np))
                                   [0..<numel (shape (pdata (snd np)))])))
          (named_parameters (net st1))"
    using grads_step_net [OF w] f(3) r(2) by simp
  with st1 f(1,2) zero_grad_all_cleared [OF w] show ?thesis by blast
qed

lemma seq_dims_step_net [simp]: "seq_dims (step_net ev lr ms images labels) n = seq_dims ms n"
  by (simp add: step_net_def)

lemma train_step_ok:
  assumes "seq_dims ms 784 = Some k" "shape (fst b) \<noteq> []"
    and "\<And>output labels. criterion ev output labels = Inr c"
  shows "\<exists>flat. flatten_batch ev (fst b) = Inr flat \<and>
           train_step ev lr ms b = Inr (step_net ev lr ms flat (snd b), c)"
proof -
  from flattened_forward [OF assms(1,2), of ev] obtain flat y where
    "flatten_batch ev (fst b) = Inr flat" "forward (zero_grad ms) flat = Inr y" by blast
  then show ?thesis
    by (simp add: train_step_def train_core_def step_net_def Let_def assms(3))
qed

lemma train_batches_ok:
  assumes "seq_dims (net st) 784 = Some k" "\<forall>b \<in> set bs. shape (fst b) \<noteq> []"
    and "\<And>scores labels. criterion ev scores labels = Inr c" and "pe \<noteq> 0"
  shows "\<exists>st'. train_batches ev lr pe E e st bs = Inr st' \<and> seq_dims (net st') 784 = Some k"
  using assms(1,2)
proof (induction bs arbitrary: st)
  case Nil
  then show ?case by simp
next
  case (Cons b bs)
  from Cons.prems have b: "shape (fst b) \<noteq> []" by simp
  from train_step_ok [OF Cons.prems(1) b assms(3), of lr] obtain flat where
    r: "train_step ev lr (net st) b = Inr (step_net ev lr (net st) flat (snd b), c)" by blast
  let ?st = "report pe E e (st\<lparr>steps := steps st + 1, net := step_net ev lr (net st) flat (snd b),
                                  running_loss := running_loss st + c\<rparr>)"
  have "seq_dims (net ?st) 784 = Some k" using Cons.prems(1) by simp
  moreover have "\<forall>b \<in> set bs. shape (fst b) \<noteq> []" using Cons.prems(2) by simp
  ultimately obtain st' where
    "train_batches ev lr pe E e ?st bs = Inr st'" "seq_dims (net st') 784 = Some k"
    using Cons.IH by blast
  then show ?case using r assms(4) by (simp add: Let_def)
qed

lemma nn_Linear_grad_wf:
  "nn_Linear wi bi i out = Inr l \<Longrightarrow> grad_wf (weight l) \<and> grad_wf (bias l)"
  by (auto simp: nn_Linear_def grad_wf_def split: if_splits)

lemma model_grads_wf:
  assumes "model init i hs out = Inr m"
  shows "grads_wf m"
proof -
  from assms obtain h0 fc1 h1 fc2 lg where
    a: "nn_Linear (init ''fc1.weight'') (init ''fc1.bias'') i h0 = Inr fc1"
       "nn_Linear (init ''fc2.weight'') (init ''fc2.bias'') h0 h1 = Inr fc2"
       "nn_Linear (init ''logits.weight'') (init ''logits.bias'') h1 out = Inr lg"
    and m: "m = [(''fc1'', Linear fc1), (''relu1'', ReLU), (''fc2'', Linear fc2),
            (''relu2'', ReLU), (''logits'', Linear lg)]"
    unfolding model_def by (auto simp: bind_err_eq_Inr)
  from a [THEN nn_Linear_grad_wf] show ?thesis
    by (simp add: m grads_wf_def)
qed

text \<open>
  The theorem at two iterations on the network of the notebook, with a derivative of one
  in every cell: after the second iteration every gradient cell holds one, not two.
\<close>

theorem gradients_reset_each_iteration_witness:
  "\<exists>m st' st1 flat scores.
     model zero_init 784 [128, 64] 10 = Inr m \<and>
     train_batches unit_env (3 / 1000) 40 3 0
       \<lparr>net = m, steps = 0, running_loss = 0, printed = []\<rparr> ([blank_image] @ [blank_image])
       = Inr st' \<and>
     train_batches unit_env (3 / 1000) 40 3 0
       \<lparr>net = m, steps = 0, running_loss = 0, printed = []\<rparr> [blank_image] = Inr st1 \<and>
     flatten_batch unit_env (fst blank_image) = Inr flat \<and>
     list_all (\<lambda>np. grad_cleared (snd np)) (named_parameters (zero_grad (net st1))) \<and>
     forward (zero_grad (net st1)) flat = Inr scores \<and>
     grads (net st') =
       map (\<lambda>np. (fst np, Some (map (\<lambda>i. 1) [0..<numel (shape (pdata (snd np)))])))
           (named_parameters (net st1))"
proof -
  from mnist_model_ok obtain m where m: "model zero_init 784 [128, 64] 10 = Inr m" ..
  let ?st = "\<lparr>net = m, steps = 0, running_loss = 0, printed = []\<rparr>"
  from model_Inr [OF m] have d: "seq_dims (net ?st) 784 = Some 10" by auto
  have w: "grads_wf (net ?st)" using model_grads_wf [OF m] by simp
  have "\<forall>b \<in> set ([blank_image] @ [blank_image]). shape (fst b) \<noteq> []"
    by (simp add: blank_image_def)
  from train_batches_ok [OF d this, of unit_env 1 40 "3 / 1000" 3 0] obtain st' where
    st': "train_batches unit_env (3 / 1000) 40 3 0 ?st ([blank_image] @ [blank_image]) = Inr st'"
    by (auto simp: unit_env_def)
  from gradients_reset_each_iteration [OF st' w] m st' show ?thesis
    by (auto simp: unit_env_def)
qed

text \<open>
  The cell that makes a single learning step clears the gradients in the same way: the
  gradients it leaves are those of its one batch.
\<close>

lemma single_training_step_gradients:
  assumes "single_training_step ev ms b = Inr r" "grads_wf ms"
  shows "grads (fst r) =
         map (\<lambda>np. (fst np, Some (map (autograd ev (zero_grad ms)
                                          (resize_inplace (garbage ev) (fst b) [64, 784]) (snd b)
                                          (fst np))
                                      [0..<numel (shape (pdata (snd np)))])))
             (named_parameters ms)"
proof -
  from assms(1) have
    "fst r = step_net ev (1 / 100) ms (resize_inplace (garbage ev) (fst b) [64, 784]) (snd b)"
    unfolding single_training_step_def by (auto dest: train_core_Inr)
  with grads_step_net [OF assms(2)] show ?thesis by simp
qed

text \<open>
  The bookkeeping of the loop: the step counter, the running loss and the printed lines.
\<close>

lemma report_off_boundary:
  "steps st mod pe \<noteq> 0 \<Longrightarrow> report pe E e st = st"
  by (simp add: report_def)

lemma report_on_boundary:
  "steps st mod pe = 0 \<Longrightarrow>
   report pe E e st = st\<lparr>printed := printed st @ [(e + 1, E, running_loss st / real pe)],
                         running_loss := 0\<rparr>"
  by (simp add: report_def)

lemma steps_report [simp]: "steps (report pe E e st) = steps st"
  by (simp add: report_def)

lemma batch_losses_Cons_Inr:
  "train_step ev lr ms b = Inr r \<Longrightarrow>
   batch_losses ev lr ms (b # bs) = snd r # batch_losses ev lr (fst r) bs"
  by simp

lemma train_batches_quiet:
  assumes "train_batches ev lr pe E e st bs = Inr st'"
    and "steps st mod pe + length bs < pe"
  shows "printed st' = printed st \<and>
         running_loss st' = running_loss st + sum_list (batch_losses ev lr (net st) bs) \<and>
         steps st' = steps st + length bs \<and>
         length (batch_losses ev lr (net st) bs) = length bs"
  using assms
proof (induction bs arbitrary: st)
  case Nil
  then show ?case by simp
next
  case (Cons b bs)
  from train_batches_Cons_Inr [OF Cons.prems(1)] obtain r where
    r: "train_step ev lr (net st) b = Inr r"
    and rest: "train_batches ev lr pe E e
             (report pe E e (st\<lparr>steps := steps st + 1, net := fst r,
                                  running_loss := running_loss st + snd r\<rparr>)) bs = Inr st'"
    by blast
  let ?st2 = "st\<lparr>steps := steps st + 1, net := fst r, running_loss := running_loss st + snd r\<rparr>"
  from Cons.prems(2) have lt: "steps st mod pe + 1 < pe" by simp
  then have m: "(steps st + 1) mod pe = steps st mod pe + 1"
    by (metis mod_Suc Suc_eq_plus1 less_not_refl)
  then have nb: "steps ?st2 mod pe \<noteq> 0" by simp
  have rep: "report pe E e ?st2 = ?st2" by (rule report_off_boundary [OF nb])
  have "steps ?st2 mod pe + length bs < pe" using Cons.prems(2) m by simp
  from Cons.IH [OF rest [unfolded rep] this] r show ?case by simp
qed

lemma train_batches_first_report:
  assumes "train_batches ev lr pe E e st bs = Inr st'"
    and "steps st mod pe + length bs = pe" and "bs \<noteq> []"
  shows "printed st' = printed st @
           [(e + 1, E, (running_loss st + sum_list (batch_losses ev lr (net st) bs)) / real pe)] \<and>
         running_loss st' = 0 \<and> steps st' = steps st + length bs \<and>
         length (batch_losses ev lr (net st) bs) = length bs"
  using assms
proof (induction bs arbitrary: st)
  case Nil
  then show ?case by simp
next
  case (Cons b bs)
  from train_batches_Cons_Inr [OF Cons.prems(1)] obtain r where
    r: "train_step ev lr (net st) b = Inr r" and pe: "pe \<noteq> 0"
    and rest: "train_batches ev lr pe E e
             (report pe E e (st\<lparr>steps := steps st + 1, net := fst r,
                                  running_loss := running_loss st + snd r\<rparr>)) bs = Inr st'"
    by blast
  let ?st2 = "st\<lparr>steps := steps st + 1, net := fst r, running_loss := running_loss st + snd r\<rparr>"
  show ?case
  proof (cases "bs = []")
    case True
    with Cons.prems(2) have "steps st mod pe + 1 = pe" by simp
    then have "(steps st + 1) mod pe = 0"
      by (metis mod_add_left_eq mod_self)
    then have "report pe E e ?st2 =
        ?st2\<lparr>printed := printed ?st2 @ [(e + 1, E, running_loss ?st2 / real pe)],
              running_loss := 0\<rparr>"
      by (intro report_on_boundary) simp
    with rest True r show ?thesis by simp
  next
    case False
    with Cons.prems(2) have lt: "steps st mod pe + 1 < pe"
      by (cases bs) simp_all
    then have m: "(steps st + 1) mod pe = steps st mod pe + 1"
      by (metis mod_Suc Suc_eq_plus1 less_not_refl)
    then have nb: "steps ?st2 mod pe \<noteq> 0" by simp
    have rep: "report pe E e ?st2 = ?st2" by (rule report_off_boundary [OF nb])
    have "steps ?st2 mod pe + length bs = pe" using Cons.prems(2) m by simp
    from Cons.IH [OF rest [unfolded rep] this False] r show ?thesis by simp
  qed
qed

lemma train_batches_printed_extends:
  "train_batches ev lr pe E e st bs = Inr st' \<Longrightarrow> \<exists>more. printed st' = printed st @ more"
proof (induction bs arbitrary: st)
  case Nil
  then show ?case by simp
next
  case (Cons b bs)
  from train_batches_Cons_Inr [OF Cons.prems(1)] obtain r where
    rest: "train_batches ev lr pe E e
             (report pe E e (st\<lparr>steps := steps st + 1, net := fst r,
                                  running_loss := running_loss st + snd r\<rparr>)) bs = Inr st'"
    by blast
  from Cons.IH [OF rest] show ?case
    by (auto simp: report_def split: if_splits)
qed

lemma batch_losses_take:
  "train_batches ev lr pe E e st bs = Inr st' \<Longrightarrow>
   batch_losses ev lr (net st) (take k bs) = take k (batch_losses ev lr (net st) bs)"
proof (induction bs arbitrary: st k)
  case Nil
  then show ?case by simp
next
  case (Cons b bs)
  from train_batches_Cons_Inr [OF Cons.prems(1)] obtain r where
    r: "train_step ev lr (net st) b = Inr r"
    and rest: "train_batches ev lr pe E e
             (report pe E e (st\<lparr>steps := steps st + 1, net := fst r,
                                  running_loss := running_loss st + snd r\<rparr>)) bs = Inr st'"
    by blast
  from Cons.IH [OF rest] r show ?case
    by (cases k) simp_all
qed

lemma sum_list_pos_real:
  "xs \<noteq> [] \<Longrightarrow> \<forall>x \<in> set xs. (0::real) < x \<Longrightarrow> 0 < sum_list xs"
  by (induction xs) (auto intro: add_pos_nonneg simp: sum_list_nonneg less_imp_le)

text \<open>
  Claim C10, as the code has it. An epoch starts with \<open>running_loss\<close> at zero and the
  step counter where the previous epoch left it. When that count is not a multiple of
  \<open>print_every\<close> and the epoch has the \<open>k = print_every - steps mod print_every\<close>
  batches that lead to the next multiple, the first line the epoch prints shows the sum
  of the losses of these \<open>k\<close> batches, fewer than \<open>print_every\<close>, divided by
  \<open>print_every\<close>; when these losses are positive that is less than their mean.
\<close>

theorem first_report_of_epoch:
  assumes "train_batches ev lr print_every epochs e (st\<lparr>running_loss := 0\<rparr>) bs = Inr st'"
    and "0 < print_every" and "steps st mod print_every \<noteq> 0"
    and "k = print_every - steps st mod print_every" and "k \<le> length bs"
  shows "k < print_every \<and>
         length (take k (batch_losses ev lr (net st) bs)) = k \<and>
         (\<exists>more. printed st' = printed st @
            (e + 1, epochs, sum_list (take k (batch_losses ev lr (net st) bs)) / real print_every)
            # more) \<and>
         ((\<forall>l \<in> set (take k (batch_losses ev lr (net st) bs)). 0 < l) \<longrightarrow>
            sum_list (take k (batch_losses ev lr (net st) bs)) / real print_every
              < sum_list (take k (batch_losses ev lr (net st) bs)) / real k)"
proof -
  let ?st0 = "st\<lparr>running_loss := 0\<rparr>"
  let ?ls = "take k (batch_losses ev lr (net st) bs)"
  have lt: "steps st mod print_every < print_every" using assms(2) by simp
  with assms(3,4) have k: "0 < k" "k < print_every" by simp_all
  have split: "bs = take k bs @ drop k bs" by simp
  from assms(1) obtain st1 where
    st1: "train_batches ev lr print_every epochs e ?st0 (take k bs) = Inr st1"
    and rest: "train_batches ev lr print_every epochs e st1 (drop k bs) = Inr st'"
    by (subst (asm) split) (auto simp only: train_batches_append bind_err_eq_Inr)
  have len: "length (take k bs) = k" using assms(5) by simp
  then have ne: "take k bs \<noteq> []" using k(1) by auto
  have "steps ?st0 mod print_every + length (take k bs) = print_every"
    using len assms(4) lt by simp
  from train_batches_first_report [OF st1 this ne]
  have p1: "printed st1 = printed st @
      [(e + 1, epochs, sum_list (batch_losses ev lr (net st) (take k bs)) / real print_every)]"
    and l1: "length (batch_losses ev lr (net st) (take k bs)) = k"
    using len by simp_all
  have tk: "batch_losses ev lr (net st) (take k bs) = ?ls"
    using batch_losses_take [OF assms(1), of k] by simp
  from train_batches_printed_extends [OF rest] obtain more where
    "printed st' = printed st1 @ more" ..
  with p1 tk have pr: "printed st' = printed st @
      (e + 1, epochs, sum_list ?ls / real print_every) # more" by simp
  have ll: "length ?ls = k" using l1 tk by simp
  have under: "sum_list ?ls / real print_every < sum_list ?ls / real k"
    if pos: "\<forall>l \<in> set ?ls. 0 < l"
  proof -
    have "?ls \<noteq> []" using ll k(1) by auto
    from sum_list_pos_real [OF this pos] have "0 < sum_list ?ls" .
    moreover have "0 < real k" "real k < real print_every" using k by simp_all
    ultimately show ?thesis by (simp add: frac_less2)
  qed
  from k(2) ll pr under show ?thesis by blast
qed

lemma batch_losses_const:
  assumes "seq_dims ms 784 = Some k" "\<forall>b \<in> set bs. shape (fst b) \<noteq> []"
    and "\<And>scores labels. criterion ev scores labels = Inr c"
  shows "batch_losses ev lr ms bs = replicate (length bs) c"
  using assms(1,2)
proof (induction bs arbitrary: ms)
  case Nil
  then show ?case by simp
next
  case (Cons b bs)
  from Cons.prems have b: "shape (fst b) \<noteq> []" by simp
  from train_step_ok [OF Cons.prems(1) b assms(3), of lr] obtain flat where
    r: "train_step ev lr ms b = Inr (step_net ev lr ms flat (snd b), c)" by blast
  have "batch_losses ev lr (step_net ev lr ms flat (snd b)) bs = replicate (length bs) c"
    using Cons.prems by (intro Cons.IH) simp_all
  with r show ?case by simp
qed

lemma full_period_epoch:
  assumes "seq_dims (net st) 784 = Some k" "\<forall>b \<in> set bs. shape (fst b) \<noteq> []"
    and "\<And>scores labels. criterion ev scores labels = Inr c"
    and "length bs = pe" "0 < pe" "steps st mod pe = 0"
  shows "\<exists>st'. train_batches ev lr pe E e (st\<lparr>running_loss := 0\<rparr>) bs = Inr st' \<and>
           printed st' = printed st @ [(e + 1, E, c)] \<and> steps st' = steps st + pe \<and>
           seq_dims (net st') 784 = Some k"
proof -
  let ?st0 = "st\<lparr>running_loss := 0\<rparr>"
  have d: "seq_dims (net ?st0) 784 = Some k" using assms(1) by simp
  from assms(5) have pe: "pe \<noteq> 0" by simp
  from train_batches_ok [OF d assms(2,3) pe, of lr E e] obtain st' where
    st': "train_batches ev lr pe E e ?st0 bs = Inr st'" "seq_dims (net st') 784 = Some k"
    by blast
  have ne: "bs \<noteq> []" using assms(4,5) by auto
  have "steps ?st0 mod pe + length bs = pe" using assms(4,6) by simp
  from train_batches_first_report [OF st'(1) this ne]
  have "printed st' = printed st @
      [(e + 1, E, sum_list (batch_losses ev lr (net st) bs) / real pe)]"
    and s: "steps st' = steps st + pe" using assms(4) by simp_all
  moreover have "sum_list (batch_losses ev lr (net st) bs) = real pe * c"
    using batch_losses_const [OF assms(1,2,3), of lr] assms(4) by (simp add: sum_list_replicate)
  ultimately have "printed st' = printed st @ [(e + 1, E, c)]" using assms(5) by simp
  with st' s show ?thesis by blast
qed

text \<open>
  The theorem at the second epoch of a loader with 938 batches, as 60000 images in
  batches of 64 give, with a loss of one in every batch: the epoch starts at step 938,
  and its first line, after 22 batches, shows 22 / 40 where the loss of every batch is
  one.
\<close>

theorem first_report_of_epoch_witness:
  "\<exists>m st'. model zero_init 784 [128, 64] 10 = Inr m \<and>
     train_batches unit_env (3 / 1000) 40 3 1
       (\<lparr>net = m, steps = 938, running_loss = 5, printed = []\<rparr>\<lparr>running_loss := 0\<rparr>)
       (replicate 23 blank_image) = Inr st' \<and>
     (\<exists>more. printed st' = (2, 3, 22 / 40) # more)"
proof -
  from mnist_model_ok obtain m where m: "model zero_init 784 [128, 64] 10 = Inr m" ..
  let ?st = "\<lparr>net = m, steps = 938, running_loss = 5, printed = []\<rparr>"
  let ?bs = "replicate 23 blank_image"
  from model_Inr [OF m] have d: "seq_dims (net (?st\<lparr>running_loss := 0\<rparr>)) 784 = Some 10"
    by auto
  have sh: "\<forall>b \<in> set ?bs. shape (fst b) \<noteq> []" by (simp add: blank_image_def)
  have c: "\<And>scores labels. criterion unit_env scores labels = Inr 1"
    by (simp add: unit_env_def)
  have pe0: "(40::nat) \<noteq> 0" by simp
  from train_batches_ok [OF d sh c pe0, of "3 / 1000" 3 1] obtain st' where
    st': "train_batches unit_env (3 / 1000) 40 3 1 (?st\<lparr>running_loss := 0\<rparr>) ?bs = Inr st'"
    by blast
  have d': "seq_dims (net ?st) 784 = Some 10" using d by simp
  have l: "batch_losses unit_env (3 / 1000) (net ?st) ?bs = replicate 23 1"
    using batch_losses_const [OF d' sh c, of "3 / 1000"] by simp
  have t: "sum_list (take 22 (replicate 23 (1::real))) = 22"
    by (simp add: sum_list_replicate)
  have pe: "(0::nat) < 40" by simp
  have nz: "steps ?st mod 40 \<noteq> 0" by simp
  have k: "(22::nat) = 40 - steps ?st mod 40" by simp
  have le: "(22::nat) \<le> length ?bs" by simp
  from first_report_of_epoch [OF st' pe nz k le] obtain more where
    "printed st' = printed ?st @
       (1 + 1, 3, sum_list (take 22 (batch_losses unit_env (3 / 1000) (net ?st) ?bs)) / real 40)
       # more"
    by blast
  then have "printed st' = (2, 3, 22 / 40) # more"
    unfolding l t by simp
  with m st' show ?thesis by blast
qed

text \<open>
  Claim C10 as stated holds for every epoch after the first, whatever the loader. With
  forty batches in every epoch each epoch starts at a multiple of \<open>print_every\<close>, and
  the one line each epoch prints is the mean of forty losses: with a loss of one in every
  batch the training cell prints the loss one in the second and the third epoch too.
\<close>

theorem full_period_counterexample:
  "map_sum id printed
     (bind_err (model zero_init 784 [128, 64] 10)
        (\<lambda>m. training_cell unit_env m (\<lambda>e. replicate 40 blank_image)))
   = Inr [(1, 3, 1), (2, 3, 1), (3, 3, 1)]"
proof -
  from mnist_model_ok obtain m where m: "model zero_init 784 [128, 64] 10 = Inr m" ..
  let ?st0 = "\<lparr>net = m, steps = 0, running_loss = 0, printed = []\<rparr>"
  let ?bs = "replicate 40 blank_image"
  let ?run = "train_batches unit_env (3 / 1000) 40 3"
  from model_Inr [OF m] have d0: "seq_dims (net ?st0) 784 = Some 10" by auto
  have sh: "\<forall>b \<in> set ?bs. shape (fst b) \<noteq> []" by (simp add: blank_image_def)
  have c: "\<And>scores labels. criterion unit_env scores labels = Inr 1"
    by (simp add: unit_env_def)
  have len: "length ?bs = 40" by simp
  have pe: "(0::nat) < 40" by simp
  have s0: "steps ?st0 mod 40 = 0" by simp
  from full_period_epoch [OF d0 sh c len pe s0, of "3 / 1000" 3 0] obtain st1 where
    r1: "?run 0 (?st0\<lparr>running_loss := 0\<rparr>) ?bs = Inr st1"
    and p1: "printed st1 = printed ?st0 @ [(0 + 1, 3, 1)]"
    and n1: "steps st1 = steps ?st0 + 40" and d1: "seq_dims (net st1) 784 = Some 10"
    by blast
  have s1: "steps st1 mod 40 = 0" using n1 by simp
  from full_period_epoch [OF d1 sh c len pe s1, of "3 / 1000" 3 1] obtain st2 where
    r2: "?run 1 (st1\<lparr>running_loss := 0\<rparr>) ?bs = Inr st2"
    and p2: "printed st2 = printed st1 @ [(1 + 1, 3, 1)]"
    and n2: "steps st2 = steps st1 + 40" and d2: "seq_dims (net st2) 784 = Some 10"
    by blast
  have s2: "steps st2 mod 40 = 0" using n1 n2 by simp
  from full_period_epoch [OF d2 sh c len pe s2, of "3 / 1000" 3 2] obtain st3 where
    r3: "?run 2 (st2\<lparr>running_loss := 0\<rparr>) ?bs = Inr st3"
    and p3: "printed st3 = printed st2 @ [(2 + 1, 3, 1)]"
    by blast
  have p: "printed st3 = [(1, 3, 1), (2, 3, 1), (3, 3, 1)]"
    unfolding p3 p2 p1 by simp
  have u: "[0..<3] = [0, 1, 2::nat]" by (simp add: upt_rec)
  have "training_cell unit_env m (\<lambda>e. ?bs) = Inr st3"
    unfolding training_cell_def u by (simp only: train_epochs.simps r1 r2 r3 bind_err_simps)
  with m p show ?thesis by simp
qed

text \<open>
  Names of the parameters of the configurable classifier.
\<close>

lemma digit_roundtrip: "d < 10 \<Longrightarrow> of_char (char_of (48 + d)) - 48 = (d::nat)"
  by (simp add: of_char_of)

lemma nat_of_string_of_nat: "nat_of_string (string_of_nat n) = n"
proof (induction n rule: string_of_nat.induct)
  case (1 n)
  show ?case
  proof (cases "n < 10")
    case True
    then show ?thesis
      by (subst string_of_nat.simps) (simp add: nat_of_string_def digit_roundtrip)
  next
    case False
    have "nat_of_string (string_of_nat n) =
          10 * nat_of_string (string_of_nat (n div 10)) + (of_char (char_of (48 + n mod 10)) - 48)"
      using False by (subst string_of_nat.simps) (simp add: nat_of_string_def)
    also have "\<dots> = 10 * (n div 10) + n mod 10"
      using "1.IH" [OF False] by (simp add: digit_roundtrip)
    finally show ?thesis by simp
  qed
qed

lemma string_of_nat_inj: "string_of_nat m = string_of_nat n \<Longrightarrow> m = n"
  by (metis nat_of_string_of_nat)

lemma hidden_name_inj [simp]: "hidden_name j s = hidden_name k s \<longleftrightarrow> j = k"
  by (auto simp: hidden_name_def dest: string_of_nat_inj)

lemma hidden_name_weight_bias [simp]:
  "hidden_name j ''weight'' \<noteq> hidden_name k ''bias''"
  "hidden_name j ''bias'' \<noteq> hidden_name k ''weight''"
proof -
  have "last (hidden_name j ''weight'') \<noteq> last (hidden_name k ''bias'')"
    by (simp add: hidden_name_def)
  then show "hidden_name j ''weight'' \<noteq> hidden_name k ''bias''" by metis
  have "last (hidden_name j ''bias'') \<noteq> last (hidden_name k ''weight'')"
    by (simp add: hidden_name_def)
  then show "hidden_name j ''bias'' \<noteq> hidden_name k ''weight''" by metis
qed

lemma hidden_name_not_output [simp]:
  "hidden_name j s \<noteq> ''output.weight''" "hidden_name j s \<noteq> ''output.bias''"
  "''output.weight'' \<noteq> hidden_name j s" "''output.bias'' \<noteq> hidden_name j s"
  by (simp_all add: hidden_name_def)

text \<open>
  Claim C7: constructing the classifier with a non-positive input or output size, or
  with a hidden size of zero, fails with a configuration error.
\<close>

theorem Network_rejects_bad_sizes:
  assumes "input_size \<le> 0 \<or> output_size \<le> 0 \<or> 0 \<in> set hidden_sizes"
  shows "Network init input_size output_size hidden_sizes p = Inl ConfigurationError"
  using assms by (auto simp: Network_def)

text \<open>
  The theorem at a hidden size of zero, at an input size of zero and at a negative output
  size.
\<close>

theorem Network_rejects_bad_sizes_witness:
  "Network zero_init 784 10 [512, 0, 128] (1 / 2) = Inl ConfigurationError \<and>
   Network zero_init 0 10 [512] (1 / 2) = Inl ConfigurationError \<and>
   Network zero_init 784 (- 1) [] (1 / 2) = Inl ConfigurationError"
  using Network_rejects_bad_sizes [of 784 10 "[512, 0, 128]" zero_init "1 / 2"]
    Network_rejects_bad_sizes [of 0 10 "[512]" zero_init "1 / 2"]
    Network_rejects_bad_sizes [of 784 "- 1" "[]" zero_init "1 / 2"]
  by simp

text \<open>
  Claim C8: the checkpoint is a dictionary with exactly the keys \<open>input_size\<close> and
  \<open>output_size\<close> (integers), \<open>hidden_layers\<close> (a list of integers) and
  \<open>state_dict\<close> (parameter names with their values), in this order. Saving writes it
  to the one file at the path handed to \<^verbatim>\<open>torch.save\<close>, which the cell gives as
  \<open>checkpoint.pth\<close>; every other file is as before, and loading that path gives the
  dictionary back.
\<close>

theorem checkpoint_keys:
  "map fst (checkpoint nw) = [''input_size'', ''output_size'', ''hidden_layers'', ''state_dict''] \<and>
   (\<exists>i out hs sd. map snd (checkpoint nw) = [PyInt i, PyInt out, PyIntList hs, PyStateDict sd]) \<and>
   save_checkpoint nw fs = torch_save (checkpoint nw) ''checkpoint.pth'' fs \<and>
   torch_save (checkpoint nw) path fs q = (if q = path then Some (checkpoint nw) else fs q) \<and>
   torch_load (torch_save (checkpoint nw) path fs) path = Inr (checkpoint nw)"
  by (simp add: checkpoint_def save_checkpoint_def torch_save_def torch_load_def)

text \<open>
  Construction of the classifier, its state dict, and loading a state dict into a
  network of the same architecture.
\<close>

lemma state_dict_sd_entry:
  "state_dict nw = map sd_entry (network_parameters nw)"
  by (simp add: state_dict_def sd_entry_def)

lemma nn_Linear_exact:
  assumes "nn_Linear wi bi i out = Inr l"
  shows "linear_exact l \<and> in_features l = nat i \<and> out_features l = nat out \<and>
         pgrad (weight l) = None \<and> pgrad (bias l) = None \<and> 0 \<le> i \<and> 0 \<le> out"
  using assms by (auto simp: nn_Linear_def linear_exact_def split: if_splits)

lemma hidden_stack_Cons_Inr:
  assumes "hidden_stack init k i (h # hs) = Inr ls0"
  shows "\<exists>l0 ls1. ls0 = l0 # ls1 \<and>
           nn_Linear (init (hidden_name k ''weight'')) (init (hidden_name k ''bias'')) i h = Inr l0 \<and>
           hidden_stack init (Suc k) h hs = Inr ls1"
  using assms by (auto simp: bind_err_eq_Inr)

lemma hidden_stack_ok:
  "0 \<le> i \<Longrightarrow> \<forall>h \<in> set hs. 0 \<le> h \<Longrightarrow> \<exists>ls. hidden_stack init k i hs = Inr ls"
proof (induction hs arbitrary: k i)
  case Nil
  then show ?case by simp
next
  case (Cons h hs)
  from Cons.prems have h: "0 \<le> h" by simp
  from nn_Linear_ok [OF Cons.prems(1) h] obtain l where
    l: "nn_Linear (init (hidden_name k ''weight'')) (init (hidden_name k ''bias'')) i h = Inr l"
    by blast
  from Cons.IH [OF h, of "Suc k"] Cons.prems(2) obtain ls where
    "hidden_stack init (Suc k) h hs = Inr ls" by auto
  with l show ?case by simp
qed

lemma hidden_stack_twin:
  assumes "chain_wf n ls"
    and "hidden_stack init k (int n) (map (\<lambda>each. int (out_features each)) ls) = Inr ls0"
  shows "list_all2 fresh_twin ls0 ls"
  using assms
proof (induction ls arbitrary: n k ls0)
  case Nil
  then show ?case by simp
next
  case (Cons l ls)
  from hidden_stack_Cons_Inr [of init k "int n" "int (out_features l)"
      "map (\<lambda>each. int (out_features each)) ls" ls0] Cons.prems(2)
  obtain l0 ls1 where ls0: "ls0 = l0 # ls1"
    and l0: "nn_Linear (init (hidden_name k ''weight'')) (init (hidden_name k ''bias''))
               (int n) (int (out_features l)) = Inr l0"
    and ls1: "hidden_stack init (Suc k) (int (out_features l))
                (map (\<lambda>each. int (out_features each)) ls) = Inr ls1"
    by auto
  from Cons.prems(1) have l: "in_features l = n" "linear_exact l" "chain_wf (out_features l) ls"
    by simp_all
  from nn_Linear_exact [OF l0] l(1,2) have "fresh_twin l0 l"
    by (simp add: fresh_twin_def linear_exact_def)
  moreover from Cons.IH [OF l(3) ls1] have "list_all2 fresh_twin ls1 ls" .
  ultimately show ?case by (simp add: ls0)
qed

lemma hidden_parameters_names:
  "length ls0 = length ls \<Longrightarrow>
   map fst (hidden_parameters k ls0) = map fst (hidden_parameters k ls)"
  by (induction ls0 ls arbitrary: k rule: list_induct2) simp_all

lemma map_of_hidden_weight:
  "map_of (map sd_entry (hidden_parameters k ls)) (hidden_name j ''weight'') =
   (if k \<le> j \<and> j < k + length ls then Some (pdata (weight (ls ! (j - k)))) else None)"
proof (induction ls arbitrary: k)
  case Nil
  then show ?case by simp
next
  case (Cons l ls)
  show ?case
  proof (cases "j = k")
    case True
    then show ?thesis by (simp add: sd_entry_def)
  next
    case False
    then have "(l # ls) ! (j - k) = ls ! (j - Suc k)" if "k \<le> j" using that
      by (simp add: nth_Cons')
    with False Cons.IH [of "Suc k"] show ?thesis
      by (auto simp: sd_entry_def)
  qed
qed

lemma map_of_hidden_bias:
  "map_of (map sd_entry (hidden_parameters k ls)) (hidden_name j ''bias'') =
   (if k \<le> j \<and> j < k + length ls then Some (pdata (bias (ls ! (j - k)))) else None)"
proof (induction ls arbitrary: k)
  case Nil
  then show ?case by simp
next
  case (Cons l ls)
  show ?case
  proof (cases "j = k")
    case True
    then show ?thesis by (simp add: sd_entry_def)
  next
    case False
    then have "(l # ls) ! (j - k) = ls ! (j - Suc k)" if "k \<le> j" using that
      by (simp add: nth_Cons')
    with False Cons.IH [of "Suc k"] show ?thesis
      by (auto simp: sd_entry_def)
  qed
qed

lemma map_of_hidden_output:
  "map_of (map sd_entry (hidden_parameters k ls)) ''output.weight'' = None"
  "map_of (map sd_entry (hidden_parameters k ls)) ''output.bias'' = None"
  by (induction ls arbitrary: k) (simp_all add: sd_entry_def)

lemma map_of_state_dict:
  "map_of (state_dict nw) (hidden_name j ''weight'') =
     (if j < length (hidden_layers nw) then Some (pdata (weight (hidden_layers nw ! j))) else None)"
  "map_of (state_dict nw) (hidden_name j ''bias'') =
     (if j < length (hidden_layers nw) then Some (pdata (bias (hidden_layers nw ! j))) else None)"
  "map_of (state_dict nw) ''output.weight'' = Some (pdata (weight (output nw)))"
  "map_of (state_dict nw) ''output.bias'' = Some (pdata (bias (output nw)))"
  by (simp_all add: state_dict_sd_entry network_parameters_def map_of_hidden_weight
        map_of_hidden_bias map_of_hidden_output map_add_def sd_entry_def)

lemma elems_exact:
  "length (storage t) = numel (shape t) \<Longrightarrow> elems t = storage t"
  by (simp add: elems_def)

lemma copy_twin:
  assumes "fresh_twin l0 l" "linear_exact l"
    and "map_of sd wname = Some (pdata (weight l))"
    and "map_of sd bname = Some (pdata (bias l))"
  shows "l0\<lparr>weight := copy_from sd wname (weight l0), bias := copy_from sd bname (bias l0)\<rparr>
         = fresh_grads l"
proof -
  have ew: "elems (pdata (weight l)) = storage (pdata (weight l))"
    using assms(2) by (intro elems_exact) (simp add: linear_exact_def numel_def)
  have eb: "elems (pdata (bias l)) = storage (pdata (bias l))"
    using assms(2) by (intro elems_exact) (simp add: linear_exact_def numel_def)
  have w: "copy_from sd wname (weight l0) = (weight l)\<lparr>pgrad := None\<rparr>"
    using assms(1,3) ew
    by (intro parameter.equality tensor.equality) (simp_all add: copy_from_def fresh_twin_def)
  have b: "copy_from sd bname (bias l0) = (bias l)\<lparr>pgrad := None\<rparr>"
    using assms(1,4) eb
    by (intro parameter.equality tensor.equality) (simp_all add: copy_from_def fresh_twin_def)
  show ?thesis
    using assms(1) by (intro linear.equality) (simp_all add: w b fresh_grads_def fresh_twin_def)
qed

lemma copy_hidden:
  assumes "list_all2 fresh_twin ls0 ls" "\<forall>l \<in> set ls. linear_exact l"
    and "\<forall>j < length ls.
           map_of sd (hidden_name (k + j) ''weight'') = Some (pdata (weight (ls ! j))) \<and>
           map_of sd (hidden_name (k + j) ''bias'') = Some (pdata (bias (ls ! j)))"
  shows "map_hidden_parameters (copy_from sd) k ls0 = map fresh_grads ls"
  using assms
proof (induction ls0 ls arbitrary: k rule: list_all2_induct)
  case Nil
  then show ?case by simp
next
  case (Cons l0 ls0 l ls)
  from Cons.prems(2) [rule_format, of 0] have
    h: "map_of sd (hidden_name k ''weight'') = Some (pdata (weight l))"
       "map_of sd (hidden_name k ''bias'') = Some (pdata (bias l))" by simp_all
  from Cons.prems(1) have ex: "linear_exact l" "\<forall>l \<in> set ls. linear_exact l" by simp_all
  have "\<forall>j < length ls.
           map_of sd (hidden_name (Suc k + j) ''weight'') = Some (pdata (weight (ls ! j))) \<and>
           map_of sd (hidden_name (Suc k + j) ''bias'') = Some (pdata (bias (ls ! j)))"
  proof (intro allI impI)
    fix j assume "j < length ls"
    then have "Suc j < length (l # ls)" by simp
    from Cons.prems(2) [rule_format, OF this]
    show "map_of sd (hidden_name (Suc k + j) ''weight'') = Some (pdata (weight (ls ! j))) \<and>
          map_of sd (hidden_name (Suc k + j) ''bias'') = Some (pdata (bias (ls ! j)))" by simp
  qed
  from Cons.IH [OF ex(2) this] copy_twin [OF Cons.hyps(1) ex(1) h]
  show ?case by simp
qed

lemma ex_less_Suc_split:
  "(\<exists>j < Suc n. Q j) \<longleftrightarrow> Q 0 \<or> (\<exists>j < n. Q (Suc j))"
proof
  assume "\<exists>j < Suc n. Q j"
  then obtain j where j: "j < Suc n" "Q j" by blast
  show "Q 0 \<or> (\<exists>j < n. Q (Suc j))"
  proof (cases j)
    case 0
    with j show ?thesis by simp
  next
    case (Suc i)
    with j show ?thesis by auto
  qed
next
  assume "Q 0 \<or> (\<exists>j < n. Q (Suc j))"
  then show "\<exists>j < Suc n. Q j" by auto
qed

lemma in_hidden_parameters:
  "np \<in> set (hidden_parameters k ls) \<longleftrightarrow>
   (\<exists>j < length ls. np = (hidden_name (k + j) ''weight'', weight (ls ! j)) \<or>
                     np = (hidden_name (k + j) ''bias'', bias (ls ! j)))"
proof (induction ls arbitrary: k)
  case Nil
  then show ?case by simp
next
  case (Cons l ls)
  have "np \<in> set (hidden_parameters k (l # ls)) \<longleftrightarrow>
        np = (hidden_name k ''weight'', weight l) \<or> np = (hidden_name k ''bias'', bias l) \<or>
        np \<in> set (hidden_parameters (Suc k) ls)"
    by simp
  also have "\<dots> \<longleftrightarrow>
        (np = (hidden_name k ''weight'', weight l) \<or> np = (hidden_name k ''bias'', bias l)) \<or>
        (\<exists>j < length ls. np = (hidden_name (Suc k + j) ''weight'', weight (ls ! j)) \<or>
                     np = (hidden_name (Suc k + j) ''bias'', bias (ls ! j)))"
    by (simp only: Cons.IH [of "Suc k"] disj_assoc)
  also have "\<dots> \<longleftrightarrow>
        (\<exists>j < Suc (length ls). np = (hidden_name (k + j) ''weight'', weight ((l # ls) ! j)) \<or>
                     np = (hidden_name (k + j) ''bias'', bias ((l # ls) ! j)))"
    by (simp only: ex_less_Suc_split [where n = "length ls"] nth_Cons_0 nth_Cons_Suc
          add_0_right add_Suc_right add_Suc)
  finally show ?case by simp
qed

lemma in_network_parameters:
  "np \<in> set (network_parameters nw) \<longleftrightarrow>
   (\<exists>j < length (hidden_layers nw).
        np = (hidden_name j ''weight'', weight (hidden_layers nw ! j)) \<or>
        np = (hidden_name j ''bias'', bias (hidden_layers nw ! j))) \<or>
   np = (''output.weight'', weight (output nw)) \<or> np = (''output.bias'', bias (output nw))"
proof -
  have "np \<in> set (network_parameters nw) \<longleftrightarrow>
        np \<in> set (hidden_parameters 0 (hidden_layers nw)) \<or>
        np = (''output.weight'', weight (output nw)) \<or> np = (''output.bias'', bias (output nw))"
    by (simp add: network_parameters_def) blast
  then show ?thesis
    by (simp only: in_hidden_parameters [of np 0 "hidden_layers nw"] add_0)
qed

lemma network_parameters_names:
  "length (hidden_layers nw0) = length (hidden_layers nw) \<Longrightarrow>
   map fst (network_parameters nw0) = map fst (network_parameters nw)"
  using hidden_parameters_names [of "hidden_layers nw0" "hidden_layers nw" 0]
  by (simp add: network_parameters_def)

lemma load_twin:
  assumes tw: "list_all2 fresh_twin (hidden_layers nw0) (hidden_layers nw)"
    and two: "fresh_twin (output nw0) (output nw)"
    and ex: "\<forall>l \<in> set (hidden_layers nw). linear_exact l" "linear_exact (output nw)"
  shows "load_state_dict nw0 (state_dict nw) =
         Inr (nw0\<lparr>hidden_layers := map fresh_grads (hidden_layers nw),
                  output := fresh_grads (output nw)\<rparr>)"
proof -
  let ?sd = "state_dict nw"
  have len: "length (hidden_layers nw0) = length (hidden_layers nw)"
    using tw by (rule list_all2_lengthD)
  have tj: "fresh_twin (hidden_layers nw0 ! j) (hidden_layers nw ! j)"
    if "j < length (hidden_layers nw)" for j
    using tw that by (simp add: list_all2_conv_all_nth)
  have miss: "missing_keys nw0 ?sd = []"
    using len by (auto simp: missing_keys_def filter_empty_conv in_network_parameters
        map_of_state_dict)
  have unex: "unexpected_keys nw0 ?sd = []"
  proof -
    have "map fst ?sd = map fst (network_parameters nw0)"
      using network_parameters_names [OF len]
      by (simp add: state_dict_sd_entry sd_entry_def comp_def)
    then show ?thesis by (simp add: unexpected_keys_def filter_empty_conv)
  qed
  have mism: "size_mismatches nw0 ?sd = []"
    using len tj two
    by (auto simp: size_mismatches_def filter_empty_conv in_network_parameters
        map_of_state_dict fresh_twin_def)
  have hid: "map_hidden_parameters (copy_from ?sd) 0 (hidden_layers nw0) =
             map fresh_grads (hidden_layers nw)"
    by (rule copy_hidden [OF tw ex(1)]) (simp add: map_of_state_dict)
  have out: "(output nw0)\<lparr>weight := copy_from ?sd ''output.weight'' (weight (output nw0)),
                          bias := copy_from ?sd ''output.bias'' (bias (output nw0))\<rparr>
             = fresh_grads (output nw)"
    by (rule copy_twin [OF two ex(2)]) (simp_all add: map_of_state_dict)
  show ?thesis
    by (simp add: load_state_dict_def miss unex mism map_network_parameters_def hid out)
qed

text \<open>
  Saving a checkpoint and loading it back.
\<close>

lemma chain_wf_exact: "chain_wf n ls \<Longrightarrow> l \<in> set ls \<Longrightarrow> linear_exact l \<and> 0 < out_features l"
  by (induction ls arbitrary: n) auto

lemma chain_wf_append:
  "chain_wf n (ls @ ms) \<longleftrightarrow>
   chain_wf n ls \<and> chain_wf (if ls = [] then n else out_features (last ls)) ms"
  by (induction ls arbitrary: n) auto

lemma last_widths:
  "last (int n # map (\<lambda>each. int (out_features each)) ls) =
   int (if ls = [] then n else out_features (last ls))"
  by (induction ls arbitrary: n) auto

lemma hidden_stack_chain:
  assumes "hidden_stack init k i hs = Inr ls" "0 < i" "\<forall>h \<in> set hs. 0 < h"
  shows "chain_wf (nat i) ls \<and> map (\<lambda>each. int (out_features each)) ls = hs"
  using assms
proof (induction hs arbitrary: k i ls)
  case Nil
  then show ?case by simp
next
  case (Cons h hs)
  from hidden_stack_Cons_Inr [OF Cons.prems(1)] obtain l0 ls1 where ls: "ls = l0 # ls1"
    and l0: "nn_Linear (init (hidden_name k ''weight'')) (init (hidden_name k ''bias'')) i h = Inr l0"
    and ls1: "hidden_stack init (Suc k) h hs = Inr ls1" by blast
  from Cons.prems(3) have h: "0 < h" "\<forall>h \<in> set hs. 0 < h" by simp_all
  from Cons.IH [OF ls1 h] have "chain_wf (nat h) ls1"
    "map (\<lambda>each. int (out_features each)) ls1 = hs" by simp_all
  with nn_Linear_exact [OF l0] h(1) show ?case by (simp add: ls)
qed

lemma Network_Inr:
  assumes "Network init i out hs p = Inr nw"
  shows "network_wf (nat i) (nat out) nw \<and> hidden_widths nw = hs \<and> drop_p nw = p \<and> training nw"
proof -
  from assms have pos: "0 < i" "0 < out" "\<forall>h \<in> set hs. 0 < h"
    by (auto simp: Network_def split: if_splits)
  with assms obtain hidden outl where
    hid: "hidden_stack init 0 i hs = Inr hidden"
    and outl: "nn_Linear (init ''output.weight'') (init ''output.bias'') (last (i # hs)) out = Inr outl"
    and nw: "nw = \<lparr>hidden_layers = hidden, output = outl, drop_p = p, training = True\<rparr>"
    by (auto simp: Network_def bind_err_eq_Inr split: if_splits)
  from hidden_stack_chain [OF hid pos(1,3)] have
    ch: "chain_wf (nat i) hidden" and w: "map (\<lambda>each. int (out_features each)) hidden = hs"
    by simp_all
  have "last (i # hs) = int (if hidden = [] then nat i else out_features (last hidden))"
    using last_widths [of "nat i" hidden] w pos(1) by simp
  with nn_Linear_exact [OF outl] pos(2) have
    "chain_wf (if hidden = [] then nat i else out_features (last hidden)) [outl]"
    "out_features outl = nat out" by simp_all
  with ch pos(1) show ?thesis
    by (simp add: network_wf_def chain_wf_append nw hidden_widths_def w)
qed

lemma Network_ok:
  assumes "0 < i" "0 < out" "\<forall>h \<in> set hs. 0 < h"
  shows "\<exists>nw. Network init i out hs p = Inr nw"
proof -
  have "\<forall>h \<in> set hs. 0 \<le> h" using assms(3) by (auto simp: less_imp_le)
  from hidden_stack_ok [OF _ this, of i init 0] assms(1) obtain hidden where
    hid: "hidden_stack init 0 i hs = Inr hidden" by auto
  have "0 \<le> last (i # hs)" using assms(1,3) last_in_set [of "i # hs"] by (auto simp: less_imp_le)
  from nn_Linear_ok [OF this, of out] assms(2) obtain outl where
    "nn_Linear (init ''output.weight'') (init ''output.bias'') (last (i # hs)) out = Inr outl"
    by auto
  with hid assms show ?thesis by (auto simp: Network_def)
qed

lemma checkpoint_lookups:
  "dict_get (checkpoint nw) ''input_size'' = Inr (PyInt 784)"
  "dict_get (checkpoint nw) ''output_size'' = Inr (PyInt 10)"
  "dict_get (checkpoint nw) ''hidden_layers'' = Inr (PyIntList (hidden_widths nw))"
  "dict_get (checkpoint nw) ''state_dict'' = Inr (PyStateDict (state_dict nw))"
  by (simp_all add: dict_get_def checkpoint_def hidden_widths_def)

lemma load_saved:
  "load_checkpoint init (save_checkpoint nw fs) ''checkpoint.pth'' =
   bind_err (Network init 784 10 (hidden_widths nw) default_drop_p)
     (\<lambda>nw0. load_state_dict nw0 (state_dict nw))"
  by (simp add: load_checkpoint_def save_checkpoint_def torch_save_def torch_load_def
        checkpoint_lookups as_int_def as_int_list_def as_state_dict_def)

lemma roundtrip:
  assumes "network_wf 784 10 nw"
  shows "load_checkpoint init (save_checkpoint nw fs) ''checkpoint.pth'' =
         Inr \<lparr>hidden_layers = map fresh_grads (hidden_layers nw),
              output = fresh_grads (output nw),
              drop_p = default_drop_p, training = True\<rparr>"
proof -
  let ?L = "hidden_layers nw" and ?O = "output nw"
  from assms have ch: "chain_wf 784 (?L @ [?O])" and o: "out_features ?O = 10"
    by (simp_all add: network_wf_def)
  from ch have chL: "chain_wf 784 ?L"
    and chO: "in_features ?O = (if ?L = [] then 784 else out_features (last ?L))"
             "linear_exact ?O"
    by (simp_all add: chain_wf_append)
  have exL: "\<forall>l \<in> set ?L. linear_exact l" using chain_wf_exact [OF chL] by blast
  have posL: "\<forall>h \<in> set (hidden_widths nw). 0 < h"
    using chain_wf_exact [OF chL] by (auto simp: hidden_widths_def)
  from Network_ok [OF _ _ posL, of 784 10 init default_drop_p] obtain nw0 where
    nw0: "Network init 784 10 (hidden_widths nw) default_drop_p = Inr nw0" by auto
  then obtain hidden outl where
    hid: "hidden_stack init 0 784 (hidden_widths nw) = Inr hidden"
    and outl: "nn_Linear (init ''output.weight'') (init ''output.bias'')
                 (last (784 # hidden_widths nw)) 10 = Inr outl"
    and nw0': "nw0 = \<lparr>hidden_layers = hidden, output = outl, drop_p = default_drop_p,
                      training = True\<rparr>"
    by (auto simp: Network_def bind_err_eq_Inr split: if_splits)
  have tw: "list_all2 fresh_twin hidden ?L"
    using hidden_stack_twin [OF chL, of init 0 hidden] hid by (simp add: hidden_widths_def)
  have "last (784 # hidden_widths nw) = int (in_features ?O)"
    using last_widths [of 784 ?L] chO(1) by (simp add: hidden_widths_def)
  with nn_Linear_exact [OF outl] chO(2) o have two: "fresh_twin outl ?O"
    by (simp add: fresh_twin_def linear_exact_def)
  have "load_state_dict nw0 (state_dict nw) =
        Inr (nw0\<lparr>hidden_layers := map fresh_grads ?L, output := fresh_grads ?O\<rparr>)"
    by (rule load_twin) (simp_all add: nw0' tw two exL chO(2))
  then show ?thesis by (simp add: load_saved nw0 nw0')
qed

text \<open>
  What the loaded network computes.
\<close>

lemma linear_forward_fresh [simp]: "linear_forward (fresh_grads l) x = linear_forward l x"
  by (simp add: linear_forward_def fresh_grads_def)

lemma linear_forward_fresh_fun [simp]: "linear_forward (fresh_grads l) = linear_forward l"
  by (rule ext) simp

lemma hidden_forward_fresh:
  "hidden_forward train p masks k (map fresh_grads ls) x = hidden_forward train p masks k ls x"
proof (induction ls arbitrary: k x)
  case Nil
  then show ?case by simp
next
  case (Cons l ls)
  show ?case
    by (cases "linear_forward l x") (simp_all add: Cons.IH)
qed

lemma hidden_forward_eval:
  "hidden_forward False p masks k ls x = hidden_forward False q masks k ls x"
proof (induction ls arbitrary: k x)
  case Nil
  then show ?case by simp
next
  case (Cons l ls)
  show ?case
    by (cases "linear_forward l x") (simp_all add: dropout_def Cons.IH)
qed

lemma hidden_parameters_fresh:
  "map sd_entry (hidden_parameters k (map fresh_grads ls)) = map sd_entry (hidden_parameters k ls)"
  by (induction ls arbitrary: k) (simp_all add: sd_entry_def fresh_grads_def)

lemma string_of_nat_0: "string_of_nat 0 = ''0''"
  by code_simp

text \<open>
  A network with one hidden unit and initial values that differ from cell to cell, and
  what it computes from a black image in evaluation mode and in training mode.
\<close>

lemma dot_zeros: "dot w (replicate n 0) = 0"
proof -
  have "sum_list (map2 (*) w (replicate n (0::real))) = 0"
  proof (induction w arbitrary: n)
    case Nil
    then show ?case by simp
  next
    case (Cons a w)
    then show ?case by (cases n) simp_all
  qed
  then show ?thesis by (simp add: dot_def)
qed

lemma ramp_network:
  "Network ramp_init 784 10 [1] p =
   Inr \<lparr>hidden_layers =
          [\<lparr>in_features = 784, out_features = 1,
            weight = \<lparr>pdata = \<lparr>shape = [1, 784],
                               storage = map (ramp_init ''hidden_layers.0.weight'') [0..<784]\<rparr>,
                      pgrad = None\<rparr>,
            bias = \<lparr>pdata = \<lparr>shape = [1], storage = [1]\<rparr>, pgrad = None\<rparr>\<rparr>],
        output =
          \<lparr>in_features = 1, out_features = 10,
           weight = \<lparr>pdata = \<lparr>shape = [10, 1], storage = [1, 2, 3, 4, 5, 6, 7, 8, 9, 10]\<rparr>,
                     pgrad = None\<rparr>,
           bias = \<lparr>pdata = \<lparr>shape = [10], storage = [1, 2, 3, 4, 5, 6, 7, 8, 9, 10]\<rparr>,
                   pgrad = None\<rparr>\<rparr>,
        drop_p = p, training = True\<rparr>"
  by (simp add: Network_def nn_Linear_def hidden_name_def string_of_nat_0)
     (simp add: ramp_init_def upt_rec)

lemma hidden_layer_on_blank:
  "linear_forward
     \<lparr>in_features = 784, out_features = 1,
      weight = \<lparr>pdata = \<lparr>shape = [1, 784], storage = map f [0..<784]\<rparr>, pgrad = None\<rparr>,
      bias = \<lparr>pdata = \<lparr>shape = [1], storage = [1]\<rparr>, pgrad = None\<rparr>\<rparr>
     blank_batch
   = Inr \<lparr>shape = [1, 1], storage = [1]\<rparr>"
  by (simp add: linear_forward_def blank_batch_def rows_def elems_def numel_def affine_def
        dot_zeros)

lemma output_layer_on_scalar:
  "linear_forward
     \<lparr>in_features = 1, out_features = 10,
      weight = \<lparr>pdata = \<lparr>shape = [10, 1], storage = [1, 2, 3, 4, 5, 6, 7, 8, 9, 10]\<rparr>,
                pgrad = None\<rparr>,
      bias = \<lparr>pdata = \<lparr>shape = [10], storage = [1, 2, 3, 4, 5, 6, 7, 8, 9, 10]\<rparr>,
              pgrad = None\<rparr>\<rparr>
     \<lparr>shape = [1, 1], storage = [v]\<rparr>
   = Inr \<lparr>shape = [1, 10],
          storage = [v + 1, 2 * v + 2, 3 * v + 3, 4 * v + 4, 5 * v + 5, 6 * v + 6, 7 * v + 7,
                     8 * v + 8, 9 * v + 9, 10 * v + 10]\<rparr>"
  by (simp add: linear_forward_def rows_def elems_def numel_def affine_def dot_def upt_rec)

lemma ramp_eval_output:
  assumes "Network ramp_init 784 10 [1] p = Inr nw"
  shows "network_forward all_kept (eval_mode nw) blank_batch =
         Inr \<lparr>shape = [1, 10], storage = [2, 4, 6, 8, 10, 12, 14, 16, 18, 20]\<rparr>"
proof -
  have "network_forward all_kept (eval_mode x) blank_batch =
         Inr \<lparr>shape = [1, 10], storage = [2, 4, 6, 8, 10, 12, 14, 16, 18, 20]\<rparr>"
    if "Network ramp_init 784 10 [1] p = Inr x" for x
    using that unfolding ramp_network
    by (auto simp add: network_forward_def eval_mode_def hidden_layer_on_blank relu_def
          dropout_def output_layer_on_scalar simp del: One_nat_def)
  from this [OF assms] show ?thesis .
qed

lemma ramp_train_output:
  assumes "Network ramp_init 784 10 [1] p = Inr nw"
  shows "network_forward all_kept (nw\<lparr>training := True, drop_p := 1 / 2\<rparr>) blank_batch =
         Inr \<lparr>shape = [1, 10], storage = [3, 6, 9, 12, 15, 18, 21, 24, 27, 30]\<rparr>"
proof -
  have "network_forward all_kept (x\<lparr>training := True, drop_p := 1 / 2\<rparr>) blank_batch =
         Inr \<lparr>shape = [1, 10], storage = [3, 6, 9, 12, 15, 18, 21, 24, 27, 30]\<rparr>"
    if "Network ramp_init 784 10 [1] p = Inr x" for x
    using that unfolding ramp_network
    by (auto simp add: network_forward_def hidden_layer_on_blank relu_def
          dropout_def all_kept_def output_layer_on_scalar simp del: One_nat_def)
  from this [OF assms] show ?thesis .
qed

lemma network_wf_output_exact:
  assumes "network_wf i out nw"
  shows "shape (pdata (weight (output nw))) = [out, in_features (output nw)]"
proof -
  from assms have "chain_wf i (hidden_layers nw @ [output nw])" "out_features (output nw) = out"
    by (simp_all add: network_wf_def)
  with chain_wf_exact [of i "hidden_layers nw @ [output nw]" "output nw"]
  show ?thesis by (simp add: linear_exact_def)
qed

lemma network_wf_first_layer:
  assumes "network_wf i out nw"
  shows "hidden_layers nw = [] \<longrightarrow> in_features (output nw) = i"
    and "hidden_layers nw \<noteq> [] \<longrightarrow>
           shape (pdata (weight (hidden_layers nw ! 0))) = [out_features (hidden_layers nw ! 0), i]"
proof -
  from assms have ch: "chain_wf i (hidden_layers nw @ [output nw])"
    by (simp add: network_wf_def)
  show "hidden_layers nw = [] \<longrightarrow> in_features (output nw) = i"
    using ch by auto
  show "hidden_layers nw \<noteq> [] \<longrightarrow>
           shape (pdata (weight (hidden_layers nw ! 0))) = [out_features (hidden_layers nw ! 0), i]"
    using ch by (cases "hidden_layers nw") (auto simp: linear_exact_def)
qed

lemma other_sizes_raise:
  assumes "network_wf i out nw" "i \<noteq> 784 \<or> out \<noteq> 10"
  shows "\<exists>missing unexpected mismatched.
           load_checkpoint init (save_checkpoint nw fs) ''checkpoint.pth''
             = Inl (StateDictError missing unexpected mismatched) \<and> mismatched \<noteq> []"
proof -
  let ?L = "hidden_layers nw" and ?O = "output nw"
  let ?sd = "state_dict nw"
  from assms(1) have ch: "chain_wf i (?L @ [?O])" by (simp add: network_wf_def)
  then have chL: "chain_wf i ?L" by (simp add: chain_wf_append)
  have posL: "\<forall>h \<in> set (hidden_widths nw). 0 < h"
    using chain_wf_exact [OF chL] by (auto simp: hidden_widths_def)
  from Network_ok [OF _ _ posL, of 784 10 init default_drop_p] obtain nw0 where
    nw0: "Network init 784 10 (hidden_widths nw) default_drop_p = Inr nw0" by auto
  from Network_Inr [OF nw0] have wf0: "network_wf 784 10 nw0"
    and w0: "hidden_widths nw0 = hidden_widths nw" by simp_all
  let ?Lz = "hidden_layers nw0" and ?Oz = "output nw0"
  have len: "length ?Lz = length ?L"
    using w0 by (metis hidden_widths_def length_map)
  have "\<exists>np \<in> set (network_parameters nw0).
          case map_of ?sd (fst np) of None \<Rightarrow> False
          | Some t \<Rightarrow> shape t \<noteq> shape (pdata (snd np))"
  proof (cases "out = 10")
    case False
    let ?np = "(''output.weight'', weight ?Oz)"
    have "?np \<in> set (network_parameters nw0)"
      unfolding in_network_parameters by blast
    moreover have "map_of ?sd (fst ?np) = Some (pdata (weight ?O))"
      by (simp add: map_of_state_dict)
    moreover have "shape (pdata (weight ?O)) \<noteq> shape (pdata (snd ?np))"
      using network_wf_output_exact [OF assms(1)] network_wf_output_exact [OF wf0] False
      by simp
    ultimately show ?thesis by (intro bexI [where x = ?np]) simp_all
  next
    case True
    with assms(2) have i: "i \<noteq> 784" by simp
    show ?thesis
    proof (cases "?L = []")
      case True
      then have e0: "?Lz = []" using len by simp
      let ?np = "(''output.weight'', weight ?Oz)"
      have "?np \<in> set (network_parameters nw0)"
        unfolding in_network_parameters by blast
      moreover have "map_of ?sd (fst ?np) = Some (pdata (weight ?O))"
        by (simp add: map_of_state_dict)
      moreover have "shape (pdata (weight ?O)) \<noteq> shape (pdata (snd ?np))"
        using network_wf_output_exact [OF assms(1)] network_wf_output_exact [OF wf0]
          network_wf_first_layer(1) [OF assms(1)] network_wf_first_layer(1) [OF wf0] True e0 i
        by simp
      ultimately show ?thesis by (intro bexI [where x = ?np]) simp_all
    next
      case False
      then have n0: "?Lz \<noteq> []" and j: "0 < length ?L" "0 < length ?Lz" using len by auto
      let ?np = "(hidden_name 0 ''weight'', weight (?Lz ! 0))"
      have "?np \<in> set (network_parameters nw0)"
        unfolding in_network_parameters using j(2) by blast
      moreover have "map_of ?sd (fst ?np) = Some (pdata (weight (?L ! 0)))"
        using j(1) by (simp add: map_of_state_dict)
      moreover have "shape (pdata (weight (?L ! 0))) \<noteq> shape (pdata (snd ?np))"
        using network_wf_first_layer(2) [OF assms(1)] network_wf_first_layer(2) [OF wf0]
          False n0 i
        by simp
      ultimately show ?thesis by (intro bexI [where x = ?np]) simp_all
    qed
  qed
  then have mm: "size_mismatches nw0 ?sd \<noteq> []"
    unfolding size_mismatches_def by (simp add: filter_empty_conv)
  then have "load_state_dict nw0 ?sd =
      Inl (StateDictError (missing_keys nw0 ?sd) (unexpected_keys nw0 ?sd)
             (size_mismatches nw0 ?sd))"
    by (simp add: load_state_dict_def)
  with mm show ?thesis by (simp add: load_saved nw0)
qed

text \<open>
  Claim C1, as the code has it. The checkpoint cell writes the input size 784 and the
  output size 10 into every checkpoint. For a network of these sizes, whatever values
  training has given its parameters, saving the checkpoint and loading it back succeeds
  and gives a network with the same state dict, in training mode and with the dropout
  probability 0.5. Once both networks are in evaluation mode, its forward pass returns on
  every input what the forward pass of the original returns; as it is returned, it computes
  what the original computes in training mode with the dropout probability 0.5 and the
  same dropout masks. For a network of any other input or output size
  \<^verbatim>\<open>load_checkpoint\<close> raises the size-mismatch error of
  \<^verbatim>\<open>load_state_dict\<close>.
\<close>

theorem save_load_roundtrip:
  assumes "network_wf i out nw"
  shows "(i = 784 \<and> out = 10 \<longrightarrow>
           (\<exists>nw'. load_checkpoint init (save_checkpoint nw fs) ''checkpoint.pth'' = Inr nw' \<and>
              state_dict nw' = state_dict nw \<and> training nw' \<and> drop_p nw' = 1 / 2 \<and>
              network_forward masks (eval_mode nw') x = network_forward masks (eval_mode nw) x \<and>
              network_forward masks nw' x
                = network_forward masks (nw\<lparr>training := True, drop_p := 1 / 2\<rparr>) x)) \<and>
         (i \<noteq> 784 \<or> out \<noteq> 10 \<longrightarrow>
           (\<exists>missing unexpected mismatched.
              load_checkpoint init (save_checkpoint nw fs) ''checkpoint.pth''
                = Inl (StateDictError missing unexpected mismatched) \<and> mismatched \<noteq> []))"
proof (intro conjI impI)
  assume s: "i = 784 \<and> out = 10"
  let ?nw' = "\<lparr>hidden_layers = map fresh_grads (hidden_layers nw),
               output = fresh_grads (output nw), drop_p = default_drop_p, training = True\<rparr>"
  from assms s have wf: "network_wf 784 10 nw" by simp
  have "state_dict ?nw' = state_dict nw"
    by (simp add: state_dict_sd_entry network_parameters_def hidden_parameters_fresh)
       (simp add: sd_entry_def fresh_grads_def)
  moreover have "network_forward masks (eval_mode ?nw') x = network_forward masks (eval_mode nw) x"
    using hidden_forward_eval [of default_drop_p masks 0 "hidden_layers nw" x "drop_p nw"]
    by (simp add: network_forward_def eval_mode_def hidden_forward_fresh)
  moreover have "network_forward masks ?nw' x
      = network_forward masks (nw\<lparr>training := True, drop_p := 1 / 2\<rparr>) x"
    by (simp add: network_forward_def hidden_forward_fresh default_drop_p_def)
  moreover have "training ?nw'" "drop_p ?nw' = 1 / 2" by (simp_all add: default_drop_p_def)
  ultimately show "\<exists>nw'. load_checkpoint init (save_checkpoint nw fs) ''checkpoint.pth'' = Inr nw' \<and>
              state_dict nw' = state_dict nw \<and> training nw' \<and> drop_p nw' = 1 / 2 \<and>
              network_forward masks (eval_mode nw') x = network_forward masks (eval_mode nw) x \<and>
              network_forward masks nw' x
                = network_forward masks (nw\<lparr>training := True, drop_p := 1 / 2\<rparr>) x"
    using roundtrip [OF wf, of init fs] by simp
next
  assume "i \<noteq> 784 \<or> out \<noteq> 10"
  from other_sizes_raise [OF assms this, of init fs]
  show "\<exists>missing unexpected mismatched.
              load_checkpoint init (save_checkpoint nw fs) ''checkpoint.pth''
                = Inl (StateDictError missing unexpected mismatched) \<and> mismatched \<noteq> []" .
qed

lemma ramp_output_bias:
  assumes "Network ramp_init 784 10 hs p = Inr nw"
  shows "map_of (state_dict nw) ''output.bias''
         = Some \<lparr>shape = [10], storage = [1, 2, 3, 4, 5, 6, 7, 8, 9, 10]\<rparr>"
proof -
  from assms obtain hidden outl where
    outl: "nn_Linear (ramp_init ''output.weight'') (ramp_init ''output.bias'')
             (last (784 # hs)) 10 = Inr outl"
    and nw: "nw = \<lparr>hidden_layers = hidden, output = outl, drop_p = p, training = True\<rparr>"
    by (auto simp: Network_def bind_err_eq_Inr split: if_splits)
  from outl have "pdata (bias outl)
      = \<lparr>shape = [10], storage = map (ramp_init ''output.bias'') [0..<10]\<rparr>"
    by (auto simp: nn_Linear_def split: if_splits)
  moreover have "map (ramp_init ''output.bias'') [0..<10] = [1, 2, 3, 4, 5, 6, 7, 8, 9, 10]"
    by (simp add: ramp_init_def upt_rec)
  ultimately show ?thesis by (simp add: map_of_state_dict nw)
qed

text \<open>
  The theorem at the network of the notebook with parameter values that differ from cell
  to cell and the dropout probability 0.2, loaded into a network that was initialised
  with zeros: the loaded output bias holds the saved values, and the dropout probability
  is 0.5. And the theorem at a network with two outputs, for which loading raises.
\<close>

theorem save_load_roundtrip_witness:
  "(\<exists>nw nw'. Network ramp_init 784 10 [512, 256, 128] (1 / 5) = Inr nw \<and>
      load_checkpoint zero_init (save_checkpoint nw Map.empty) ''checkpoint.pth'' = Inr nw' \<and>
      state_dict nw' = state_dict nw \<and> training nw' \<and> drop_p nw' = 1 / 2 \<and>
      map_of (state_dict nw') ''output.bias''
        = Some \<lparr>shape = [10], storage = [1, 2, 3, 4, 5, 6, 7, 8, 9, 10]\<rparr> \<and>
      network_forward all_kept (eval_mode nw') blank_batch
        = network_forward all_kept (eval_mode nw) blank_batch \<and>
      network_forward all_kept nw' blank_batch
        = network_forward all_kept (nw\<lparr>training := True, drop_p := 1 / 2\<rparr>) blank_batch) \<and>
   (\<exists>nw missing unexpected mismatched.
      Network ramp_init 784 2 [512, 256, 128] (1 / 5) = Inr nw \<and>
      load_checkpoint zero_init (save_checkpoint nw Map.empty) ''checkpoint.pth''
        = Inl (StateDictError missing unexpected mismatched) \<and> mismatched \<noteq> [])"
proof (intro conjI)
  from Network_ok [of 784 10 "[512, 256, 128]" ramp_init "1 / 5"] obtain nw where
    nw: "Network ramp_init 784 10 [512, 256, 128] (1 / 5) = Inr nw" by auto
  from Network_Inr [OF nw] have wf: "network_wf (nat 784) (nat 10) nw" by simp
  have n: "nat 784 = 784" "nat 10 = 10" by simp_all
  from save_load_roundtrip [OF wf, of zero_init Map.empty all_kept blank_batch] n
  obtain nw' where
    l: "load_checkpoint zero_init (save_checkpoint nw Map.empty) ''checkpoint.pth'' = Inr nw'"
       "state_dict nw' = state_dict nw" "training nw'" "drop_p nw' = 1 / 2"
       "network_forward all_kept (eval_mode nw') blank_batch
          = network_forward all_kept (eval_mode nw) blank_batch"
       "network_forward all_kept nw' blank_batch
          = network_forward all_kept (nw\<lparr>training := True, drop_p := 1 / 2\<rparr>) blank_batch"
    by auto
  from ramp_output_bias [OF nw] l(2) have
    "map_of (state_dict nw') ''output.bias''
       = Some \<lparr>shape = [10], storage = [1, 2, 3, 4, 5, 6, 7, 8, 9, 10]\<rparr>" by simp
  with nw l show "\<exists>nw nw'. Network ramp_init 784 10 [512, 256, 128] (1 / 5) = Inr nw \<and>
      load_checkpoint zero_init (save_checkpoint nw Map.empty) ''checkpoint.pth'' = Inr nw' \<and>
      state_dict nw' = state_dict nw \<and> training nw' \<and> drop_p nw' = 1 / 2 \<and>
      map_of (state_dict nw') ''output.bias''
        = Some \<lparr>shape = [10], storage = [1, 2, 3, 4, 5, 6, 7, 8, 9, 10]\<rparr> \<and>
      network_forward all_kept (eval_mode nw') blank_batch
        = network_forward all_kept (eval_mode nw) blank_batch \<and>
      network_forward all_kept nw' blank_batch
        = network_forward all_kept (nw\<lparr>training := True, drop_p := 1 / 2\<rparr>) blank_batch"
    by blast
next
  from Network_ok [of 784 2 "[512, 256, 128]" ramp_init "1 / 5"] obtain nw where
    nw: "Network ramp_init 784 2 [512, 256, 128] (1 / 5) = Inr nw" by auto
  from Network_Inr [OF nw] have wf: "network_wf (nat 784) (nat 2) nw" by simp
  have n: "nat 784 = 784" "nat 2 \<noteq> 10" by simp_all
  from save_load_roundtrip [OF wf, of zero_init Map.empty] n
  obtain missing unexpected mismatched where
    "load_checkpoint zero_init (save_checkpoint nw Map.empty) ''checkpoint.pth''
        = Inl (StateDictError missing unexpected mismatched)" "mismatched \<noteq> []"
    by auto
  with nw show "\<exists>nw missing unexpected mismatched.
      Network ramp_init 784 2 [512, 256, 128] (1 / 5) = Inr nw \<and>
      load_checkpoint zero_init (save_checkpoint nw Map.empty) ''checkpoint.pth''
        = Inl (StateDictError missing unexpected mismatched) \<and> mismatched \<noteq> []"
    by blast
qed

text \<open>
  Claim C1 as stated fails in two ways. A network of the sizes 784 and 10 in evaluation
  mode computes the scores 2, 4, ..., 20 from a black image; the network that
  \<^verbatim>\<open>load_checkpoint\<close> returns for its checkpoint is in training mode with the
  dropout probability 0.5 and computes 3, 6, ..., 30 from the same image when dropout keeps
  every cell. And a network that maps the same images to two scores is saved with the
  output size 10 in its checkpoint, so that loading raises and returns no model.
\<close>

theorem roundtrip_counterexample:
  "bind_err (Network ramp_init 784 10 [1] (1 / 2))
     (\<lambda>nw. network_forward all_kept (eval_mode nw) blank_batch)
   = Inr \<lparr>shape = [1, 10], storage = [2, 4, 6, 8, 10, 12, 14, 16, 18, 20]\<rparr> \<and>
   bind_err (Network ramp_init 784 10 [1] (1 / 2))
     (\<lambda>nw. bind_err
        (load_checkpoint zero_init (save_checkpoint (eval_mode nw) Map.empty) ''checkpoint.pth'')
        (\<lambda>nw'. network_forward all_kept nw' blank_batch))
   = Inr \<lparr>shape = [1, 10], storage = [3, 6, 9, 12, 15, 18, 21, 24, 27, 30]\<rparr> \<and>
   bind_err (Network ramp_init 784 2 [1] (1 / 2))
     (\<lambda>nw. load_checkpoint zero_init (save_checkpoint nw Map.empty) ''checkpoint.pth'')
   = Inl (StateDictError [] [] [''output.weight'', ''output.bias''])"
proof (intro conjI)
  from Network_ok [of 784 10 "[1]" ramp_init "1 / 2"] obtain nw where
    nw: "Network ramp_init 784 10 [1] (1 / 2) = Inr nw" by auto
  from Network_Inr [OF nw] have wf: "network_wf 784 10 (eval_mode nw)"
    by (simp add: network_wf_def eval_mode_def)
  show "bind_err (Network ramp_init 784 10 [1] (1 / 2))
     (\<lambda>nw. network_forward all_kept (eval_mode nw) blank_batch)
   = Inr \<lparr>shape = [1, 10], storage = [2, 4, 6, 8, 10, 12, 14, 16, 18, 20]\<rparr>"
    using ramp_eval_output [OF nw] by (simp add: nw)
  let ?nw' = "\<lparr>hidden_layers = map fresh_grads (hidden_layers (eval_mode nw)),
               output = fresh_grads (output (eval_mode nw)),
               drop_p = default_drop_p, training = True\<rparr>"
  have "network_forward all_kept ?nw' blank_batch
      = network_forward all_kept (nw\<lparr>training := True, drop_p := 1 / 2\<rparr>) blank_batch"
    by (simp add: network_forward_def hidden_forward_fresh default_drop_p_def eval_mode_def)
  with ramp_train_output [OF nw] roundtrip [OF wf, of zero_init Map.empty]
  show "bind_err (Network ramp_init 784 10 [1] (1 / 2))
     (\<lambda>nw. bind_err
        (load_checkpoint zero_init (save_checkpoint (eval_mode nw) Map.empty) ''checkpoint.pth'')
        (\<lambda>nw'. network_forward all_kept nw' blank_batch))
   = Inr \<lparr>shape = [1, 10], storage = [3, 6, 9, 12, 15, 18, 21, 24, 27, 30]\<rparr>"
    by (simp add: nw)
  show "bind_err (Network ramp_init 784 2 [1] (1 / 2))
     (\<lambda>nw. load_checkpoint zero_init (save_checkpoint nw Map.empty) ''checkpoint.pth'')
   = Inl (StateDictError [] [] [''output.weight'', ''output.bias''])"
    by (simp add: load_saved hidden_widths_def Network_def nn_Linear_def load_state_dict_def
        missing_keys_def unexpected_keys_def size_mismatches_def network_parameters_def
        state_dict_def hidden_name_def string_of_nat_0 default_drop_p_def)
qed

text \<open>
  Claim C9: the checkpoint does not depend on the dropout probability of the network it
  is made from, and every network that \<^verbatim>\<open>load_checkpoint\<close> returns has the
  default dropout probability 0.5.
\<close>

theorem loaded_dropout_is_default:
  assumes "load_checkpoint init fs filepath = Inr nw'"
  shows "drop_p nw' = 1 / 2 \<and> checkpoint (nw\<lparr>drop_p := q\<rparr>) = checkpoint nw"
proof -
  from assms obtain i out hs nw0 sd where
    nw0: "Network init i out hs default_drop_p = Inr nw0"
    and ld: "load_state_dict nw0 sd = Inr nw'"
    unfolding load_checkpoint_def by (auto simp: bind_err_eq_Inr)
  from ld have "nw' = map_network_parameters (copy_from sd) nw0"
    by (auto simp: load_state_dict_def split: if_splits)
  then have "drop_p nw' = drop_p nw0" by (simp add: map_network_parameters_def)
  with Network_Inr [OF nw0] have "drop_p nw' = 1 / 2" by (simp add: default_drop_p_def)
  moreover have "checkpoint (nw\<lparr>drop_p := q\<rparr>) = checkpoint nw"
    by (simp add: checkpoint_def state_dict_def network_parameters_def)
  ultimately show ?thesis ..
qed

text \<open>
  The theorem at a network constructed with the dropout probability 0.2: it is saved and
  loaded, and the loaded network has 0.5.
\<close>

theorem loaded_dropout_is_default_witness:
  "\<exists>nw nw'. Network zero_init 784 10 [512, 256, 128] (1 / 5) = Inr nw \<and> drop_p nw = 1 / 5 \<and>
     load_checkpoint demo_init (save_checkpoint nw Map.empty) ''checkpoint.pth'' = Inr nw' \<and>
     drop_p nw' = 1 / 2 \<and> checkpoint (nw\<lparr>drop_p := 9 / 10\<rparr>) = checkpoint nw"
proof -
  from Network_ok [of 784 10 "[512, 256, 128]" zero_init "1 / 5"] obtain nw where
    nw: "Network zero_init 784 10 [512, 256, 128] (1 / 5) = Inr nw" by auto
  from Network_Inr [OF nw] have wf: "network_wf 784 10 nw" and p: "drop_p nw = 1 / 5"
    by simp_all
  from roundtrip [OF wf, of demo_init Map.empty] obtain nw' where
    nw': "load_checkpoint demo_init (save_checkpoint nw Map.empty) ''checkpoint.pth'' = Inr nw'"
    by blast
  from loaded_dropout_is_default [OF nw', where nw = nw and q = "9 / 10"] nw p nw'
  show ?thesis by blast
qed

lemma string_of_nat_1: "string_of_nat (Suc 0) = ''1''"
  by code_simp

lemma string_of_nat_2: "string_of_nat (Suc (Suc 0)) = ''2''"
  by code_simp

text \<open>
  The failing cell of the notebook: the state dict of a network with the hidden sizes
  512, 256, 128 is loaded into one with 400, 200, 100. The error lists the seven
  parameters whose sizes differ, as the notebook's output does.
\<close>

lemma notebook_mismatch:
  "bind_err (Network zero_init 784 10 [512, 256, 128] (1 / 2)) (\<lambda>nw1.
   bind_err (Network demo_init 784 10 [400, 200, 100] (1 / 2)) (\<lambda>nw2.
     load_state_dict nw2 (state_dict nw1)))
   = Inl (StateDictError [] []
       [''hidden_layers.0.weight'', ''hidden_layers.0.bias'',
        ''hidden_layers.1.weight'', ''hidden_layers.1.bias'',
        ''hidden_layers.2.weight'', ''hidden_layers.2.bias'', ''output.weight''])"
  by (simp add: Network_def nn_Linear_def load_state_dict_def
        missing_keys_def unexpected_keys_def size_mismatches_def network_parameters_def
        state_dict_def hidden_name_def string_of_nat_0 string_of_nat_1 string_of_nat_2)

lemma hidden_name_in_network_parameters:
  "hidden_name j ''weight'' \<in> fst ` set (network_parameters nw) \<longleftrightarrow> j < length (hidden_layers nw)"
proof
  assume "hidden_name j ''weight'' \<in> fst ` set (network_parameters nw)"
  then obtain p where "(hidden_name j ''weight'', p) \<in> set (network_parameters nw)" by auto
  then show "j < length (hidden_layers nw)"
    unfolding in_network_parameters by auto
next
  assume "j < length (hidden_layers nw)"
  then have "(hidden_name j ''weight'', weight (hidden_layers nw ! j)) \<in> set (network_parameters nw)"
    unfolding in_network_parameters by blast
  then show "hidden_name j ''weight'' \<in> fst ` set (network_parameters nw)" by force
qed

lemma network_wf_hidden_exact:
  assumes "network_wf i out nw" "j < length (hidden_layers nw)"
  shows "linear_exact (hidden_layers nw ! j)"
proof -
  from assms(1) have "chain_wf i (hidden_layers nw @ [output nw])"
    by (simp add: network_wf_def)
  moreover have "hidden_layers nw ! j \<in> set (hidden_layers nw @ [output nw])"
    using assms(2) by simp
  ultimately show ?thesis using chain_wf_exact by blast
qed

text \<open>
  Claim C2: loading the state dict of a network into a network with other hidden sizes
  raises the error of \<^verbatim>\<open>load_state_dict\<close> and returns no network. The error
  names a size mismatch whenever the two networks have the same number of hidden layers;
  otherwise a parameter of one has no counterpart in the other, and the error names it as
  a missing or an unexpected key.
\<close>

theorem mismatched_architecture_rejected:
  assumes "network_wf i1 o1 nw1" "network_wf i2 o2 nw2"
    and "hidden_widths nw1 \<noteq> hidden_widths nw2"
  shows "\<exists>missing unexpected mismatched.
           load_state_dict nw2 (state_dict nw1) = Inl (StateDictError missing unexpected mismatched) \<and>
           (missing \<noteq> [] \<or> unexpected \<noteq> [] \<or> mismatched \<noteq> []) \<and>
           (length (hidden_layers nw1) = length (hidden_layers nw2) \<longrightarrow> mismatched \<noteq> [])"
proof -
  let ?L1 = "hidden_layers nw1" and ?L2 = "hidden_layers nw2"
  let ?sd = "state_dict nw1"
  have some: "missing_keys nw2 ?sd \<noteq> [] \<or> unexpected_keys nw2 ?sd \<noteq> [] \<or>
              size_mismatches nw2 ?sd \<noteq> []"
    and same: "length ?L1 = length ?L2 \<longrightarrow> size_mismatches nw2 ?sd \<noteq> []"
  proof -
    consider (shorter) "length ?L1 < length ?L2" | (longer) "length ?L2 < length ?L1"
      | (equal) "length ?L1 = length ?L2" by linarith
    then have "(missing_keys nw2 ?sd \<noteq> [] \<or> unexpected_keys nw2 ?sd \<noteq> [] \<or>
              size_mismatches nw2 ?sd \<noteq> []) \<and>
              (length ?L1 = length ?L2 \<longrightarrow> size_mismatches nw2 ?sd \<noteq> [])"
    proof cases
      case shorter
      let ?np = "(hidden_name (length ?L1) ''weight'', weight (?L2 ! length ?L1))"
      have "?np \<in> set (network_parameters nw2)"
        unfolding in_network_parameters using shorter by blast
      moreover have "map_of ?sd (fst ?np) = None"
        by (simp add: map_of_state_dict)
      ultimately have "\<exists>np \<in> set (network_parameters nw2). map_of ?sd (fst np) = None"
        by (intro bexI [where x = ?np])
      then have "missing_keys nw2 ?sd \<noteq> []"
        unfolding missing_keys_def by (simp add: filter_empty_conv)
      with shorter show ?thesis by simp
    next
      case longer
      let ?k = "hidden_name (length ?L2) ''weight''"
      have "?k \<in> fst ` set (network_parameters nw1)"
        using longer by (simp add: hidden_name_in_network_parameters)
      then have "?k \<in> set (map fst ?sd)"
        by (simp add: state_dict_sd_entry sd_entry_def comp_def)
      moreover have "?k \<notin> set (map fst (network_parameters nw2))"
        using hidden_name_in_network_parameters [of "length ?L2" nw2] by simp
      ultimately have "\<exists>k \<in> set (map fst ?sd). k \<notin> set (map fst (network_parameters nw2))"
        by (intro bexI [where x = ?k])
      then have "unexpected_keys nw2 ?sd \<noteq> []"
        unfolding unexpected_keys_def by (simp only: filter_empty_conv not_all not_not) blast
      with longer show ?thesis by simp
    next
      case equal
      have "map (\<lambda>each. int (out_features each)) ?L1 \<noteq> map (\<lambda>each. int (out_features each)) ?L2"
        using assms(3) by (simp add: hidden_widths_def)
      with equal obtain j where j: "j < length ?L1"
        and d: "out_features (?L1 ! j) \<noteq> out_features (?L2 ! j)"
        by (auto simp: list_eq_iff_nth_eq)
      let ?np = "(hidden_name j ''weight'', weight (?L2 ! j))"
      have j2: "j < length ?L2" using j equal by simp
      have "?np \<in> set (network_parameters nw2)"
        unfolding in_network_parameters using j2 by blast
      moreover have "map_of ?sd (fst ?np) = Some (pdata (weight (?L1 ! j)))"
        using j by (simp add: map_of_state_dict)
      moreover have "shape (pdata (weight (?L1 ! j))) \<noteq> shape (pdata (snd ?np))"
        using network_wf_hidden_exact [OF assms(1) j] network_wf_hidden_exact [OF assms(2) j2] d
        by (simp add: linear_exact_def)
      ultimately have "\<exists>np \<in> set (network_parameters nw2).
          case map_of ?sd (fst np) of None \<Rightarrow> False
          | Some t \<Rightarrow> shape t \<noteq> shape (pdata (snd np))"
        by (intro bexI [where x = ?np]) simp_all
      then have "size_mismatches nw2 ?sd \<noteq> []"
        unfolding size_mismatches_def by (simp add: filter_empty_conv)
      then show ?thesis by simp
    qed
    then show "missing_keys nw2 ?sd \<noteq> [] \<or> unexpected_keys nw2 ?sd \<noteq> [] \<or>
              size_mismatches nw2 ?sd \<noteq> []"
      and "length ?L1 = length ?L2 \<longrightarrow> size_mismatches nw2 ?sd \<noteq> []" by blast+
  qed
  from some have "load_state_dict nw2 ?sd =
      Inl (StateDictError (missing_keys nw2 ?sd) (unexpected_keys nw2 ?sd) (size_mismatches nw2 ?sd))"
    by (auto simp: load_state_dict_def)
  with some same show ?thesis by blast
qed

text \<open>
  The theorem at the two networks of the notebook.
\<close>

theorem mismatched_architecture_rejected_witness:
  "\<exists>nw1 nw2 missing unexpected mismatched.
     Network zero_init 784 10 [512, 256, 128] (1 / 2) = Inr nw1 \<and>
     Network demo_init 784 10 [400, 200, 100] (1 / 2) = Inr nw2 \<and>
     load_state_dict nw2 (state_dict nw1) = Inl (StateDictError missing unexpected mismatched) \<and>
     mismatched \<noteq> []"
proof -
  from Network_ok [of 784 10 "[512, 256, 128]" zero_init "1 / 2"] obtain nw1 where
    nw1: "Network zero_init 784 10 [512, 256, 128] (1 / 2) = Inr nw1" by auto
  from Network_ok [of 784 10 "[400, 200, 100]" demo_init "1 / 2"] obtain nw2 where
    nw2: "Network demo_init 784 10 [400, 200, 100] (1 / 2) = Inr nw2" by auto
  from Network_Inr [OF nw1] have w1: "network_wf 784 10 nw1"
    and h1: "hidden_widths nw1 = [512, 256, 128]" by simp_all
  from Network_Inr [OF nw2] have w2: "network_wf 784 10 nw2"
    and h2: "hidden_widths nw2 = [400, 200, 100]" by simp_all
  have ne: "hidden_widths nw1 \<noteq> hidden_widths nw2" by (simp add: h1 h2)
  have len: "length (hidden_layers nw1) = length (hidden_layers nw2)"
    using h1 h2 by (metis hidden_widths_def length_map length_Cons)
  from mismatched_architecture_rejected [OF w1 w2 ne] len nw1 nw2
  show ?thesis by blast
qed

end
